theory Spec2Isabelle
  imports Main "HOL-Library.Word"
begin

section \<open>The loader of \<^verbatim>\<open>src/lib/loader/loader.c\<close>\<close>

text \<open>
  The loader is a constructor that runs once when the library is mapped into a process:
  it connects to a local control socket, announces the process id, receives a rendezvous
  address, starts a detached thread that loads the agent module, and waits for one more
  value before it returns. The embedding follows the C functions one by one. Everything
  the C code obtains from the platform (the socket, the allocator, the thread library,
  the dynamic linker) is an explicit part of the state or of the environment.
\<close>

subsection \<open>Bytes, memory cells and pointers\<close>

type_synonym byte = "8 word"

text \<open>A memory cell holds a byte, or is indeterminate (\<open>None\<close>) before its first write.\<close>

type_synonym cell = "byte option"

text \<open>Pointers are addresses; \<open>NULL\<close> is address 0.\<close>

type_synonym ptr = nat

definition NULL :: ptr where
  "NULL = 0"

text \<open>\<^verbatim>\<open>size_t\<close> on arm64; \<^verbatim>\<open>uint8_t\<close> is \<open>byte\<close>.\<close>

type_synonym size_t = "64 word"

text \<open>\<^verbatim>\<open>EINTR\<close> of \<^verbatim>\<open><errno.h>\<close> on Darwin.\<close>

definition EINTR :: nat where
  "EINTR = 4"

subsection \<open>The state of the process and of its control channel\<close>

text \<open>
  What successive \<^verbatim>\<open>recv\<close> calls on the control socket observe: a fragment of data that
  has arrived, the orderly closure of the peer, or an error with its \<^verbatim>\<open>errno\<close>.
\<close>

datatype recv_event = Data "byte list" | Eof | Err nat

text \<open>
  How the kernel answers successive \<^verbatim>\<open>send\<close> calls: it accepts at most so many bytes of
  what it is given, or fails with an \<^verbatim>\<open>errno\<close>.
\<close>

datatype send_event = Accept nat | SendErr nat

text \<open>
  Calls into the thread library and the dynamic linker, in the order they happen. The
  call of the agent's entry point is recorded with its three arguments and with the
  block that the first of them points to when the call is made.
\<close>

datatype action =
    ThreadCreate ptr
  | ThreadDetach nat
  | Dlopen "byte list" ptr
  | Dlsym ptr "byte list" ptr
  | AgentMain ptr ptr nat "cell list option"
  | Dlclose ptr
  | Close int

record world =
  errno :: nat
  incoming :: "recv_event list"
  send_plan :: "send_event list"
  outgoing :: "byte list"
  heap :: "(ptr \<times> cell list) list"
  fds :: "int set"
  trace :: "action list"
  logfile :: "byte list"

subsection \<open>The allocator\<close>

text \<open>
  The heap is the list of live blocks, each with its address and its cells. \<^verbatim>\<open>malloc\<close>
  returns a block of indeterminate cells at an address that is neither \<open>NULL\<close> nor live;
  the Darwin allocator does so for size 0 too. Running out of memory is not modelled.
  \<^verbatim>\<open>free\<close> of \<open>NULL\<close> does nothing.
\<close>

definition fresh :: "(ptr \<times> cell list) list \<Rightarrow> ptr" where
  "fresh h = Suc (fold max (map fst h) 0)"

definition malloc :: "world \<Rightarrow> nat \<Rightarrow> ptr \<times> world" where
  "malloc w n = (let p = fresh (heap w) in (p, w\<lparr>heap := (p, replicate n None) # heap w\<rparr>))"

definition free :: "world \<Rightarrow> ptr \<Rightarrow> world" where
  "free w p = (if p = NULL then w else w\<lparr>heap := filter (\<lambda>b. fst b \<noteq> p) (heap w)\<rparr>)"

definition load :: "world \<Rightarrow> ptr \<Rightarrow> cell list option" where
  "load w p = map_of (heap w) p"

definition store :: "world \<Rightarrow> ptr \<Rightarrow> cell list \<Rightarrow> world" where
  "store w p cs = w\<lparr>heap := map (\<lambda>b. if fst b = p then (p, cs) else b) (heap w)\<rparr>"

text \<open>Writing the bytes \<open>d\<close> into a region of cells, from position \<open>offset\<close> on.\<close>

definition poke :: "cell list \<Rightarrow> nat \<Rightarrow> byte list \<Rightarrow> cell list" where
  "poke bytes offset d = take offset bytes @ map Some d @ drop (offset + length d) bytes"

subsection \<open>The socket calls\<close>

text \<open>
  \<^verbatim>\<open>recv (s, buf, len, 0)\<close> on the control socket: the result \<open>n\<close>, the bytes it wrote to
  the buffer, and the state after the call. A fragment longer than \<open>len\<close> is delivered
  in part and the rest stays queued. With nothing queued the call blocks for ever: the
  result is \<open>None\<close>. The loader has one socket; the descriptor \<open>s\<close> is passed on as
  in the C code.
\<close>

definition recv :: "world \<Rightarrow> int \<Rightarrow> nat \<Rightarrow> (int \<times> byte list \<times> world) option" where
  "recv w s len =
     (case incoming w of
        [] \<Rightarrow> None
      | Data d # es \<Rightarrow>
          if length d \<le> len then Some (int (length d), d, w\<lparr>incoming := es\<rparr>)
          else Some (int len, take len d, w\<lparr>incoming := Data (drop len d) # es\<rparr>)
      | Eof # es \<Rightarrow> Some (0, [], w)
      | Err e # es \<Rightarrow> Some (- 1, [], w\<lparr>errno := e, incoming := es\<rparr>))"

text \<open>The work left in the receive script: it decreases with every call that does not return 0.\<close>

fun recv_weight :: "recv_event list \<Rightarrow> nat" where
  "recv_weight [] = 0"
| "recv_weight (Data d # es) = Suc (length d) + recv_weight es"
| "recv_weight (e # es) = Suc (recv_weight es)"

subsection \<open>\<^verbatim>\<open>frida_loader_recv_bytes\<close>\<close>

text \<open>
  The loop of \<^verbatim>\<open>frida_loader_recv_bytes\<close>, with the region \<open>bytes\<close> it fills and the
  loop variable \<open>offset\<close>. The result is the boolean the C function returns, the region
  and the state; \<open>None\<close> when a \<^verbatim>\<open>recv\<close> never returns.
\<close>

function frida_loader_recv_bytes_loop ::
  "world \<Rightarrow> int \<Rightarrow> cell list \<Rightarrow> size_t \<Rightarrow> size_t \<Rightarrow> (bool \<times> cell list \<times> world) option" where
  "frida_loader_recv_bytes_loop w s bytes sz offset =
     (if offset \<noteq> sz then
        (case recv w s (unat (sz - offset)) of
           None \<Rightarrow> None
         | Some (n, d, w') \<Rightarrow>
             if n > 0 then
               frida_loader_recv_bytes_loop w' s (poke bytes (unat offset) d) sz
                 (offset + word_of_int n)
             else if n = 0 then Some (False, bytes, w')
             else if n = - 1 \<and> errno w' \<noteq> EINTR then Some (False, bytes, w')
             else frida_loader_recv_bytes_loop w' s bytes sz offset)
      else Some (True, bytes, w))"
  by pat_completeness auto
termination
proof (relation "measure (\<lambda>(w, s, bytes, sz, offset). recv_weight (incoming w))", goal_cases)
  case 1
  show ?case by simp
next
  case (2 w s bytes sz offset x2 n y d w')
  then have r: "recv w s (unat (sz - offset)) = Some (n, d, w')" and "n \<noteq> 0"
    by simp_all
  have "recv_weight (incoming w') < recv_weight (incoming w)"
    if "recv w s len = Some (n, d, w')" for len
    using that \<open>n \<noteq> 0\<close>
    by (auto simp: recv_def split: list.splits recv_event.splits if_splits)
  from this [OF r] show ?case by simp
next
  case (3 w s bytes sz offset x2 n y d w')
  then have r: "recv w s (unat (sz - offset)) = Some (n, d, w')" and "n \<noteq> 0"
    by simp_all
  have "recv_weight (incoming w') < recv_weight (incoming w)"
    if "recv w s len = Some (n, d, w')" for len
    using that \<open>n \<noteq> 0\<close>
    by (auto simp: recv_def split: list.splits recv_event.splits if_splits)
  from this [OF r] show ?case by simp
qed

definition frida_loader_recv_bytes ::
  "world \<Rightarrow> int \<Rightarrow> cell list \<Rightarrow> size_t \<Rightarrow> (bool \<times> cell list \<times> world) option" where
  "frida_loader_recv_bytes w s bytes sz = frida_loader_recv_bytes_loop w s bytes sz 0"

subsection \<open>\<^verbatim>\<open>frida_loader_recv_value\<close>\<close>

text \<open>
  The length byte is received into the local variable \<open>size\<close>, one indeterminate cell
  on the stack; then a block of that size is allocated and filled. The variable is read
  only after \<^verbatim>\<open>frida_loader_recv_bytes\<close> has returned true, that is after it was
  written, so the branch for a cell still indeterminate is never taken. The block is
  filled through a copy of its cells, which \<open>store\<close> writes back when
  \<^verbatim>\<open>frida_loader_recv_bytes\<close> returns; nothing reads the heap in between. The result is
  the pointer returned (\<open>NULL\<close> for failure) and the state.
\<close>

definition frida_loader_recv_value :: "world \<Rightarrow> int \<Rightarrow> (ptr \<times> world) option" where
  "frida_loader_recv_value w s =
     (case frida_loader_recv_bytes w s [None] 1 of
        None \<Rightarrow> None
      | Some (ok, size_cells, w1) \<Rightarrow>
          if \<not> ok then Some (NULL, w1)
          else
            (case size_cells of
               Some sz # _ \<Rightarrow>
                 (let (buf, w2) = malloc w1 (unat sz) in
                  case frida_loader_recv_bytes w2 s (replicate (unat sz) None) (ucast sz) of
                    None \<Rightarrow> None
                  | Some (ok2, cells, w3) \<Rightarrow>
                      if \<not> ok2 then Some (NULL, free (store w3 buf cells) buf)
                      else Some (buf, store w3 buf cells))
             | _ \<Rightarrow> None))"

subsection \<open>Sending\<close>

text \<open>
  \<^verbatim>\<open>send (s, buf, len, 0)\<close> on the control socket, where \<open>buf\<close> is the memory from the
  pointer on: the result \<open>n\<close> and the state after the call. Once the scripted answers
  are used up the kernel accepts all it is given.
\<close>

definition send :: "world \<Rightarrow> int \<Rightarrow> byte list \<Rightarrow> nat \<Rightarrow> int \<times> world" where
  "send w s buf len =
     (case send_plan w of
        [] \<Rightarrow> (int len, w\<lparr>outgoing := outgoing w @ take len buf\<rparr>)
      | Accept k # es \<Rightarrow>
          (int (min k len), w\<lparr>outgoing := outgoing w @ take (min k len) buf, send_plan := es\<rparr>)
      | SendErr e # es \<Rightarrow> (- 1, w\<lparr>errno := e, send_plan := es\<rparr>))"

function frida_loader_send_bytes_loop ::
  "world \<Rightarrow> int \<Rightarrow> byte list \<Rightarrow> size_t \<Rightarrow> size_t \<Rightarrow> bool \<times> world" where
  "frida_loader_send_bytes_loop w s bytes sz offset =
     (if offset \<noteq> sz then
        (case send w s (drop (unat offset) bytes) (unat (sz - offset)) of
           (n, w') \<Rightarrow>
             if n \<noteq> - 1 then frida_loader_send_bytes_loop w' s bytes sz (offset + word_of_int n)
             else if errno w' \<noteq> EINTR then (False, w')
             else frida_loader_send_bytes_loop w' s bytes sz offset)
      else (True, w))"
  by pat_completeness auto
termination
proof (relation "measures [\<lambda>(w, s, bytes, sz, offset). length (send_plan w),
                           \<lambda>(w, s, bytes, sz, offset). unat (sz - offset)]", goal_cases)
  case 1
  show ?case by simp
next
  case (2 w s bytes sz offset n w')
  then have ne: "offset \<noteq> sz"
    and r: "send w s (drop (unat offset) bytes) (unat (sz - offset)) = (n, w')"
    and ok: "n \<noteq> - 1"
    by simp_all
  have pos: "0 < unat (sz - offset)"
    using ne by (simp add: unat_gt_0)
  show ?case
  proof (cases "send_plan w")
    case Nil
    with r have "offset + word_of_int n = sz" "send_plan w' = send_plan w"
      by (auto simp: send_def)
    with pos show ?thesis by simp
  next
    case (Cons a es)
    with r ok have "length (send_plan w') < length (send_plan w)"
      by (cases a) (auto simp: send_def)
    then show ?thesis by simp
  qed
next
  case (3 w s bytes sz offset n w')
  then have r: "send w s (drop (unat offset) bytes) (unat (sz - offset)) = (n, w')"
    and bad: "n = - 1"
    by simp_all
  have "length (send_plan w') < length (send_plan w)"
    if "send w s buf len = (n, w')" for buf len
    using that bad by (auto simp: send_def split: list.splits send_event.splits)
  from this [OF r] show ?case by simp
qed

definition frida_loader_send_bytes :: "world \<Rightarrow> int \<Rightarrow> byte list \<Rightarrow> size_t \<Rightarrow> bool \<times> world" where
  "frida_loader_send_bytes w s bytes sz = frida_loader_send_bytes_loop w s bytes sz 0"

text \<open>
  \<^verbatim>\<open>strlen\<close> of the array \<open>v\<close> points to: the number of bytes before the first zero
  byte. C requires the array to hold one.
\<close>

definition strlen :: "byte list \<Rightarrow> nat" where
  "strlen v = length (takeWhile (\<lambda>b. b \<noteq> 0) v)"

text \<open>
  \<^verbatim>\<open>frida_loader_send_value\<close>: the conversion of \<^verbatim>\<open>strlen (v)\<close> to \<^verbatim>\<open>uint8_t\<close> keeps
  its low eight bits.
\<close>

definition frida_loader_send_value :: "world \<Rightarrow> int \<Rightarrow> byte list \<Rightarrow> bool \<times> world" where
  "frida_loader_send_value w s v =
     (let sz = (word_of_nat (strlen v) :: byte) in
      case frida_loader_send_bytes w s [sz] 1 of
        (ok, w1) \<Rightarrow>
          if \<not> ok then (False, w1)
          else frida_loader_send_bytes w1 s v (ucast sz))"

subsection \<open>Formatted text\<close>

text \<open>The bytes of an ASCII string literal.\<close>

definition bytes_of :: "string \<Rightarrow> byte list" where
  "bytes_of cs = map (\<lambda>c. word_of_nat (of_char c)) cs"

text \<open>What \<^verbatim>\<open>%d\<close> prints for an \<^verbatim>\<open>int\<close>: the decimal digits, after a minus sign if negative.\<close>

fun digits :: "nat \<Rightarrow> byte list" where
  "digits n = (if n < 10 then [48 + word_of_nat n]
               else digits (n div 10) @ [48 + word_of_nat (n mod 10)])"

definition decimal :: "int \<Rightarrow> byte list" where
  "decimal i = (if i < 0 then 45 # digits (nat (- i)) else digits (nat i))"

text \<open>
  \<^verbatim>\<open>asprintf\<close> and \<^verbatim>\<open>vasprintf\<close>: a new block that holds the rendered text and its
  terminating zero byte.
\<close>

definition asprintf :: "world \<Rightarrow> byte list \<Rightarrow> ptr \<times> world" where
  "asprintf w text =
     (let (p, w1) = malloc w (length text + 1) in (p, store w1 p (map Some (text @ [0]))))"

text \<open>The bytes a \<^verbatim>\<open>const char *\<close> argument reads from a region: up to its first zero byte.\<close>

fun cstring :: "cell list \<Rightarrow> byte list" where
  "cstring [] = []"
| "cstring (None # cs) = []"
| "cstring (Some b # cs) = (if b = 0 then [] else b # cstring cs)"

text \<open>The string that a pointer into the heap refers to.\<close>

definition string_at :: "world \<Rightarrow> ptr \<Rightarrow> byte list" where
  "string_at w p = (case load w p of None \<Rightarrow> [] | Some cs \<Rightarrow> cstring cs)"

text \<open>
  \<^verbatim>\<open>strcpy (dest, src)\<close> copies the string and its terminating zero byte, whatever the
  size of \<open>dest\<close>. The result is the array \<open>dest\<close> after the call, and \<open>None\<close> when the
  copy runs past its end: the behaviour of the program is then undefined.
\<close>

definition strcpy :: "cell list \<Rightarrow> byte list \<Rightarrow> cell list option" where
  "strcpy dest src =
     (if length src + 1 \<le> length dest then Some (poke dest 0 (src @ [0])) else None)"

subsection \<open>The platform\<close>

text \<open>
  How the platform answers the calls whose result the loader does not control:
  the contents of \<^verbatim>\<open>frida_data_dir\<close> as patched into the binary, \<^verbatim>\<open>getpid\<close>,
  \<^verbatim>\<open>socket\<close> (a descriptor or -1), \<^verbatim>\<open>connect\<close> (0 or -1), \<^verbatim>\<open>pthread_create\<close>
  (0 or an error number), \<^verbatim>\<open>dlopen\<close> and \<^verbatim>\<open>dlsym\<close> (a handle or \<open>NULL\<close>), and
  whether \<^verbatim>\<open>fopen\<close> of the log file succeeds.
\<close>

record env =
  frida_data_dir :: "byte list"
  getpid :: int
  socket_result :: int
  connect_result :: int
  pthread_create_result :: int
  dlopen_result :: ptr
  dlsym_result :: ptr
  fopen_ok :: bool

definition frida_log :: "env \<Rightarrow> world \<Rightarrow> byte list \<Rightarrow> world" where
  "frida_log e w text = (if fopen_ok e then w\<lparr>logfile := logfile w @ text\<rparr> else w)"

definition socket :: "env \<Rightarrow> world \<Rightarrow> int \<times> world" where
  "socket e w =
     (if socket_result e = - 1 then (- 1, w)
      else (socket_result e, w\<lparr>fds := insert (socket_result e) (fds w)\<rparr>))"

text \<open>
  \<^verbatim>\<open>struct sockaddr_un\<close> of Darwin: two bytes for \<^verbatim>\<open>sun_len\<close> and \<^verbatim>\<open>sun_family\<close>, then
  the 104 bytes of \<^verbatim>\<open>sun_path\<close>.
\<close>

record sockaddr_un =
  sun_len :: byte
  sun_family :: byte
  sun_path :: "cell list"

definition AF_UNIX :: byte where
  "AF_UNIX = 1"

text \<open>
  \<^verbatim>\<open>connect\<close> is given the address and its length. The constructor calls it once, so
  the answer of the platform to that call is one value of the environment.
\<close>

definition connect :: "env \<Rightarrow> world \<Rightarrow> int \<Rightarrow> sockaddr_un \<Rightarrow> byte \<Rightarrow> int \<times> world" where
  "connect e w s address address_len = (connect_result e, w)"

definition close :: "world \<Rightarrow> int \<Rightarrow> world" where
  "close w s = w\<lparr>fds := fds w - {s}, trace := trace w @ [Close s]\<rparr>"

text \<open>
  \<^verbatim>\<open>pthread_create\<close> stores a handle in \<^verbatim>\<open>thread\<close> only when it succeeds; the variable
  is indeterminate (\<open>None\<close>) otherwise. \<^verbatim>\<open>pthread_detach\<close> of a handle that names no
  thread has no effect (Darwin answers \<^verbatim>\<open>ESRCH\<close>).
\<close>

definition pthread_create :: "env \<Rightarrow> world \<Rightarrow> ptr \<Rightarrow> nat option \<times> world" where
  "pthread_create e w arg =
     (if pthread_create_result e = 0
      then (Some (length (trace w)), w\<lparr>trace := trace w @ [ThreadCreate arg]\<rparr>)
      else (None, w))"

definition pthread_detach :: "world \<Rightarrow> nat option \<Rightarrow> world" where
  "pthread_detach w thread =
     (case thread of None \<Rightarrow> w | Some t \<Rightarrow> w\<lparr>trace := trace w @ [ThreadDetach t]\<rparr>)"

definition dlopen :: "env \<Rightarrow> world \<Rightarrow> ptr \<Rightarrow> ptr \<times> world" where
  "dlopen e w path =
     (dlopen_result e,
      w\<lparr>trace := trace w @
         [Dlopen (case load w path of None \<Rightarrow> [] | Some cs \<Rightarrow> cstring cs) (dlopen_result e)]\<rparr>)"

definition dlsym :: "env \<Rightarrow> world \<Rightarrow> ptr \<Rightarrow> byte list \<Rightarrow> ptr \<times> world" where
  "dlsym e w handle name =
     (dlsym_result e, w\<lparr>trace := trace w @ [Dlsym handle name (dlsym_result e)]\<rparr>)"

definition dlclose :: "world \<Rightarrow> ptr \<Rightarrow> world" where
  "dlclose w handle = w\<lparr>trace := trace w @ [Dlclose handle]\<rparr>"

text \<open>
  The call of the agent's entry point. The agent is a separate module: the model
  records the call with its three arguments and lets it return.
\<close>

definition agent_main :: "world \<Rightarrow> ptr \<Rightarrow> ptr \<Rightarrow> nat \<Rightarrow> world" where
  "agent_main w data_string mapped_range parent_thread_id =
     w\<lparr>trace := trace w @
        [AgentMain data_string mapped_range parent_thread_id (load w data_string)]\<rparr>"

subsection \<open>\<^verbatim>\<open>frida_loader_send\<close>\<close>

text \<open>
  \<^verbatim>\<open>frida_loader_send (s, format, ...)\<close>, given the text that the format and its
  arguments render to.
\<close>

definition frida_loader_send :: "world \<Rightarrow> int \<Rightarrow> byte list \<Rightarrow> bool \<times> world" where
  "frida_loader_send w s text =
     (let (v, w1) = asprintf w text;
          (success, w2) = frida_loader_send_value w1 s (text @ [0])
      in (success, free w2 v))"

subsection \<open>\<^verbatim>\<open>frida_loader_on_load\<close>\<close>

text \<open>The code from the label \<^verbatim>\<open>beach\<close> on.\<close>

definition on_load_beach :: "world \<Rightarrow> int \<Rightarrow> ptr \<Rightarrow> world" where
  "on_load_beach w s callback_path =
     free (if s \<noteq> - 1 then close w s else w) callback_path"

text \<open>
  How a call of the constructor ends: it returns, in some state; or it blocks for ever in
  a \<^verbatim>\<open>recv\<close>; or it writes past the end of \<^verbatim>\<open>callback.sun_path\<close>, after which
  nothing is known about it.
\<close>

datatype 'a outcome = Returns 'a | Blocks | Overflows

text \<open>
  The constructor. The local \<^verbatim>\<open>callback\<close> starts with indeterminate cells;
  \<^verbatim>\<open>sun_len\<close> is an \<^verbatim>\<open>unsigned char\<close>, so the sum assigned to it keeps its low eight
  bits. The thread that the constructor creates runs beside it and is not part of this
  function.
\<close>

definition frida_loader_on_load :: "env \<Rightarrow> world \<Rightarrow> world outcome" where
  "frida_loader_on_load e w0 =
     (let w1 = frida_log e w0 (bytes_of ''frida_loader_on_load'' @ [10]);
          (callback_path, w2) = asprintf w1 (frida_data_dir e @ bytes_of ''/callback'');
          (s, w3) = socket e w2
      in if s = - 1 then Returns (on_load_beach w3 s callback_path)
         else
           (case strcpy (replicate 104 None) (string_at w3 callback_path) of
              None \<Rightarrow> Overflows
            | Some path \<Rightarrow>
                (let callback = \<lparr>sun_len = 1 + 1 + word_of_nat (length (string_at w3 callback_path)),
                                 sun_family = AF_UNIX, sun_path = path\<rparr>;
                     (rc, w4) = connect e w3 s callback (sun_len callback)
                 in if rc = - 1 then Returns (on_load_beach w4 s callback_path)
                    else
                      (let (ok, w5) = frida_loader_send w4 s (decimal (getpid e))
                       in if \<not> ok then Returns (on_load_beach w5 s callback_path)
                          else
                            (case frida_loader_recv_value w5 s of
                               None \<Rightarrow> Blocks
                             | Some (pipe_address, w6) \<Rightarrow>
                                 if pipe_address = NULL
                                 then Returns (on_load_beach w6 s callback_path)
                                 else
                                   (let (thread, w7) = pthread_create e w6 pipe_address;
                                        w8 = pthread_detach w7 thread
                                    in case frida_loader_recv_value w8 s of
                                         None \<Rightarrow> Blocks
                                       | Some (permission_to_resume, w9) \<Rightarrow>
                                           Returns (on_load_beach (free w9 permission_to_resume)
                                                      s callback_path)))))))"

subsection \<open>\<^verbatim>\<open>frida_loader_run\<close>\<close>

text \<open>
  The thread routine either returns, or is stopped by its assertion, which ends the
  process with \<^verbatim>\<open>abort\<close>.
\<close>

datatype run_result = Returned world | Aborted world

definition run_beach :: "world \<Rightarrow> ptr \<Rightarrow> ptr \<Rightarrow> world" where
  "run_beach w agent_path pipe_address = free (free w agent_path) pipe_address"

definition frida_loader_run :: "env \<Rightarrow> world \<Rightarrow> ptr \<Rightarrow> run_result" where
  "frida_loader_run e w user_data =
     (let pipe_address = user_data;
          (agent_path, w1) = asprintf w (frida_data_dir e @ bytes_of ''/frida-agent.dylib'');
          (agent, w2) = dlopen e w1 agent_path
      in if agent = NULL then Returned (run_beach w2 agent_path pipe_address)
         else
           (let (entry, w3) = dlsym e w2 agent (bytes_of ''frida_agent_main'')
            in if entry = NULL then Aborted w3
               else
                 (let w4 = agent_main w3 pipe_address NULL 0;
                      w5 = dlclose w4 agent
                  in Returned (run_beach w5 agent_path pipe_address))))"

section \<open>Properties\<close>

subsection \<open>Notions used to state them\<close>

text \<open>
  The bytes a receive script carries, and the scripts that carry them without incident:
  every fragment is non-empty and every error is an interruption by a signal.
\<close>

fun payload :: "recv_event list \<Rightarrow> byte list" where
  "payload [] = []"
| "payload (Data d # es) = d @ payload es"
| "payload (Eof # es) = payload es"
| "payload (Err x # es) = payload es"

fun benign :: "recv_event list \<Rightarrow> bool" where
  "benign [] = True"
| "benign (Data d # es) = (d \<noteq> [] \<and> benign es)"
| "benign (Eof # es) = False"
| "benign (Err x # es) = (x = EINTR \<and> benign es)"

text \<open>A send plan in which no call fails for a reason other than an interruption.\<close>

fun no_fatal :: "send_event list \<Rightarrow> bool" where
  "no_fatal [] = True"
| "no_fatal (Accept k # es) = no_fatal es"
| "no_fatal (SendErr x # es) = (x = EINTR \<and> no_fatal es)"

text \<open>What reading from the socket leaves as it was.\<close>

definition untouched :: "world \<Rightarrow> world \<Rightarrow> bool" where
  "untouched w w' \<longleftrightarrow>
     heap w' = heap w \<and> fds w' = fds w \<and> trace w' = trace w \<and> outgoing w' = outgoing w \<and>
     send_plan w' = send_plan w \<and> logfile w' = logfile w"

text \<open>The block that \<^verbatim>\<open>frida_loader_recv_value\<close> hands back, if it returns.\<close>

definition received_value :: "world \<Rightarrow> int \<Rightarrow> cell list option" where
  "received_value w s =
     (case frida_loader_recv_value w s of None \<Rightarrow> None | Some (p, w') \<Rightarrow> load w' p)"

text \<open>What writing to the socket leaves as it was.\<close>

definition only_sent :: "world \<Rightarrow> world \<Rightarrow> bool" where
  "only_sent w w' \<longleftrightarrow>
     heap w' = heap w \<and> fds w' = fds w \<and> trace w' = trace w \<and> incoming w' = incoming w \<and>
     logfile w' = logfile w"

text \<open>An idle process: nothing queued, nothing allocated, nothing open.\<close>

definition idle :: world where
  "idle = \<lparr>errno = 0, incoming = [], send_plan = [], outgoing = [], heap = [], fds = {},
     trace = [], logfile = []\<rparr>"

text \<open>
  A platform on which every call of the handshake and of the bootstrap succeeds; only
  the log file cannot be opened.
\<close>

definition cooperative :: env where
  "cooperative = \<lparr>frida_data_dir = bytes_of ''/d'', getpid = 1234, socket_result = 3,
     connect_result = 0, pthread_create_result = 0, dlopen_result = 77, dlsym_result = 88,
     fopen_ok = False\<rparr>"

subsection \<open>Arithmetic of \<^verbatim>\<open>size_t\<close> offsets\<close>

declare frida_loader_recv_bytes_loop.simps [simp del]
declare frida_loader_send_bytes_loop.simps [simp del]

lemma step_offset:
  fixes offset sz :: size_t
  assumes "unat offset + k \<le> unat sz"
  shows "unat (offset + word_of_int (int k)) = unat offset + k"
proof -
  have b: "unat sz < 2 ^ 64"
    using unsigned_less [of sz] by simp
  with assms have k: "k < 2 ^ 64" by simp
  have "word_of_int (int k) = (word_of_nat k :: size_t)" by simp
  moreover have "unat (word_of_nat k :: size_t) = k"
    using k by (simp add: unat_of_nat take_bit_nat_eq_self)
  moreover have "unat offset + k < 2 ^ LENGTH(64)"
    using assms b by simp
  ultimately show ?thesis
    by (simp add: unat_word_ariths take_bit_nat_eq_self)
qed

lemma left_len:
  fixes offset sz :: size_t
  shows "unat offset \<le> unat sz \<Longrightarrow> unat (sz - offset) = unat sz - unat offset"
  by (simp add: unat_sub word_le_nat_alt)

lemma step_to_end:
  fixes offset sz :: size_t
  assumes "unat offset + k = unat sz"
  shows "offset + word_of_int (int k) = sz"
proof -
  have "unat (offset + word_of_int (int k)) = unat sz"
    using assms step_offset [of offset k sz] by simp
  then show ?thesis by (simp only: word_unat_eq_iff)
qed

subsection \<open>Receiving an exact number of bytes\<close>

lemma recv_loop_done:
  "frida_loader_recv_bytes_loop w s bytes sz sz = Some (True, bytes, w)"
  by (simp add: frida_loader_recv_bytes_loop.simps)

lemma recv_loop_fills:
  assumes "benign pre" and "incoming w = pre @ rest" and "unat offset \<le> unat sz"
    and "unat sz - unat offset \<le> length (payload pre)" and "length bytes = unat sz"
  shows "\<exists>w' pre'. frida_loader_recv_bytes_loop w s bytes sz offset =
           Some (True, take (unat offset) bytes @
                   map Some (take (unat sz - unat offset) (payload pre)), w')
         \<and> incoming w' = pre' @ rest \<and> benign pre'
         \<and> payload pre' = drop (unat sz - unat offset) (payload pre)"
  using assms
proof (induction pre arbitrary: w bytes offset)
  case Nil
  then have "offset = sz" by (simp add: word_unat_eq_iff)
  with Nil show ?case by (simp add: recv_loop_done)
next
  case (Cons e es)
  show ?case
  proof (cases "offset = sz")
    case True
    with Cons.prems show ?thesis
      by (auto simp: recv_loop_done intro!: exI [of _ "e # es"])
  next
    case False
    with Cons.prems have lt: "unat offset < unat sz"
      by (simp add: word_unat_eq_iff)
    define len where "len = unat sz - unat offset"
    have len: "unat (sz - offset) = len" "0 < len"
      using lt by (simp_all add: len_def left_len)
    show ?thesis
    proof (cases e)
      case (Data d)
      with Cons.prems have d: "d \<noteq> []" and es: "benign es" by simp_all
      show ?thesis
      proof (cases "length d \<le> len")
        case True
        let ?w1 = "w\<lparr>incoming := es @ rest\<rparr>"
        define off where "off = offset + word_of_int (int (length d))"
        let ?off = off
        let ?bytes = "poke bytes (unat offset) d"
        have r: "recv w s len = Some (int (length d), d, ?w1)"
          using Cons.prems Data True by (simp add: recv_def)
        have off: "unat ?off = unat offset + length d"
          unfolding off_def
          using True lt by (intro step_offset [of _ _ sz]) (simp add: len_def)
        have unfold: "frida_loader_recv_bytes_loop w s bytes sz offset =
            frida_loader_recv_bytes_loop ?w1 s ?bytes sz ?off"
          using False d r len
          by (simp add: frida_loader_recv_bytes_loop.simps [of w] off_def)
        have "\<exists>w' pre'. frida_loader_recv_bytes_loop ?w1 s ?bytes sz ?off =
           Some (True, take (unat ?off) ?bytes @
                   map Some (take (unat sz - unat ?off) (payload es)), w')
         \<and> incoming w' = pre' @ rest \<and> benign pre'
         \<and> payload pre' = drop (unat sz - unat ?off) (payload es)"
          using Cons.prems True Data off es
          by (intro Cons.IH) (simp_all add: len_def poke_def)
        moreover have "take (unat ?off) ?bytes = take (unat offset) bytes @ map Some d"
          using Cons.prems lt by (simp add: off poke_def)
        moreover have "take len (payload (e # es)) = d @ take (unat sz - unat ?off) (payload es)"
          using True Data by (simp add: off len_def)
        moreover have "drop len (payload (e # es)) = drop (unat sz - unat ?off) (payload es)"
          using True Data by (simp add: off len_def)
        ultimately show ?thesis
          unfolding unfold len_def [symmetric] by simp
      next
        case False
        let ?w1 = "w\<lparr>incoming := Data (drop len d) # es @ rest\<rparr>"
        let ?bytes = "poke bytes (unat offset) (take len d)"
        have r: "recv w s len = Some (int len, take len d, ?w1)"
          using Cons.prems Data False by (simp add: recv_def)
        have off: "offset + word_of_int (int len) = sz"
          using lt by (intro step_to_end) (simp add: len_def)
        have "frida_loader_recv_bytes_loop w s bytes sz offset = Some (True, ?bytes, ?w1)"
          using \<open>offset \<noteq> sz\<close> r len off
          by (simp add: frida_loader_recv_bytes_loop.simps [of w] recv_loop_done)
        moreover have "?bytes = take (unat offset) bytes @ map Some (take len (payload (e # es)))"
          using False Data Cons.prems lt by (simp add: poke_def len_def)
        moreover have "incoming ?w1 = (Data (drop len d) # es) @ rest" by simp
        moreover have "benign (Data (drop len d) # es)" using False es by simp
        moreover have "payload (Data (drop len d) # es) = drop len (payload (e # es))"
          using False Data by simp
        ultimately show ?thesis
          unfolding len_def [symmetric]
          by - (rule exI [of _ ?w1], rule exI [of _ "Data (drop len d) # es"], simp)
      qed
    next
      case Eof
      with Cons.prems show ?thesis by simp
    next
      case (Err x)
      with Cons.prems have x: "x = EINTR" and es: "benign es" by simp_all
      let ?w1 = "w\<lparr>errno := x, incoming := es @ rest\<rparr>"
      have r: "recv w s len = Some (- 1, [], ?w1)"
        using Cons.prems Err by (simp add: recv_def)
      have unfold: "frida_loader_recv_bytes_loop w s bytes sz offset =
          frida_loader_recv_bytes_loop ?w1 s bytes sz offset"
        using False r len x
        by (simp add: frida_loader_recv_bytes_loop.simps [of w])
      have "\<exists>w' pre'. frida_loader_recv_bytes_loop ?w1 s bytes sz offset =
           Some (True, take (unat offset) bytes @
                   map Some (take (unat sz - unat offset) (payload es)), w')
         \<and> incoming w' = pre' @ rest \<and> benign pre'
         \<and> payload pre' = drop (unat sz - unat offset) (payload es)"
        using Cons.prems Err es by (intro Cons.IH) simp_all
      then show ?thesis
        unfolding unfold using Err by simp
    qed
  qed
qed


lemma recv_loop_fails:
  assumes "benign pre" and "incoming w = pre @ stop # rest"
    and "stop = Eof \<or> (\<exists>x. stop = Err x \<and> x \<noteq> EINTR)"
    and "unat offset \<le> unat sz" and "length (payload pre) < unat sz - unat offset"
  shows "\<exists>cells w'. frida_loader_recv_bytes_loop w s bytes sz offset = Some (False, cells, w')"
  using assms
proof (induction pre arbitrary: w bytes offset)
  case Nil
  then have ne: "offset \<noteq> sz" by auto
  from Nil(3) show ?case
  proof
    assume "stop = Eof"
    with Nil ne show ?thesis
      by (simp add: frida_loader_recv_bytes_loop.simps [of w] recv_def)
  next
    assume "\<exists>x. stop = Err x \<and> x \<noteq> EINTR"
    with Nil ne show ?thesis
      by (auto simp: frida_loader_recv_bytes_loop.simps [of w] recv_def)
  qed
next
  case (Cons e es)
  then have ne: "offset \<noteq> sz" by auto
  define len where "len = unat sz - unat offset"
  have len: "unat (sz - offset) = len"
    using Cons.prems by (simp add: len_def left_len)
  show ?case
  proof (cases e)
    case (Data d)
    with Cons.prems have d: "d \<noteq> []" "length d < len" and es: "benign es"
      by (simp_all add: len_def)
    define off where "off = offset + word_of_int (int (length d))"
    let ?w1 = "w\<lparr>incoming := es @ stop # rest\<rparr>"
    have r: "recv w s len = Some (int (length d), d, ?w1)"
      using Cons.prems Data d by (simp add: recv_def)
    have off: "unat off = unat offset + length d"
      unfolding off_def using d by (intro step_offset [of _ _ sz]) (simp add: len_def)
    have "frida_loader_recv_bytes_loop w s bytes sz offset =
        frida_loader_recv_bytes_loop ?w1 s (poke bytes (unat offset) d) sz off"
      using ne d r len by (simp add: frida_loader_recv_bytes_loop.simps [of w] off_def)
    moreover have "\<exists>cells w'. frida_loader_recv_bytes_loop ?w1 s (poke bytes (unat offset) d) sz off
        = Some (False, cells, w')"
      using Cons.prems Data d es off by (intro Cons.IH) (simp_all add: len_def)
    ultimately show ?thesis by simp
  next
    case Eof
    with Cons.prems show ?thesis by simp
  next
    case (Err x)
    with Cons.prems have x: "x = EINTR" and es: "benign es" by simp_all
    let ?w1 = "w\<lparr>errno := x, incoming := es @ stop # rest\<rparr>"
    have r: "recv w s len = Some (- 1, [], ?w1)"
      using Cons.prems Err by (simp add: recv_def)
    have "frida_loader_recv_bytes_loop w s bytes sz offset =
        frida_loader_recv_bytes_loop ?w1 s bytes sz offset"
      using ne r len x by (simp add: frida_loader_recv_bytes_loop.simps [of w])
    moreover have "\<exists>cells w'. frida_loader_recv_bytes_loop ?w1 s bytes sz offset
        = Some (False, cells, w')"
      using Cons.prems Err es by (intro Cons.IH) simp_all
    ultimately show ?thesis by simp
  qed
qed

text \<open>
  On such a failure the bytes that had arrived are in the region, where the loop wrote
  them; the rest of the region is as it was.
\<close>

lemma recv_loop_fails_region:
  assumes "benign pre" and "incoming w = pre @ stop # rest"
    and "stop = Eof \<or> (\<exists>x. stop = Err x \<and> x \<noteq> EINTR)"
    and "unat offset \<le> unat sz" and "length (payload pre) < unat sz - unat offset"
    and "length bytes = unat sz"
  shows "\<exists>w'. frida_loader_recv_bytes_loop w s bytes sz offset =
           Some (False, take (unat offset) bytes @ map Some (payload pre) @
                   drop (unat offset + length (payload pre)) bytes, w')
         \<and> incoming w' = (if stop = Eof then Eof # rest else rest)"
  using assms
proof (induction pre arbitrary: w bytes offset)
  case Nil
  then have ne: "offset \<noteq> sz" by auto
  from Nil(3) show ?case
  proof
    assume "stop = Eof"
    with Nil ne show ?thesis
      by (simp add: frida_loader_recv_bytes_loop.simps [of w] recv_def)
  next
    assume "\<exists>x. stop = Err x \<and> x \<noteq> EINTR"
    with Nil ne show ?thesis
      by (auto simp: frida_loader_recv_bytes_loop.simps [of w] recv_def)
  qed
next
  case (Cons e es)
  then have ne: "offset \<noteq> sz" by auto
  define len where "len = unat sz - unat offset"
  have len: "unat (sz - offset) = len"
    using Cons.prems by (simp add: len_def left_len)
  show ?case
  proof (cases e)
    case (Data d)
    with Cons.prems have d: "d \<noteq> []" "length d < len" and es: "benign es"
      by (simp_all add: len_def)
    define off where "off = offset + word_of_int (int (length d))"
    define region where "region = poke bytes (unat offset) d"
    let ?w1 = "w\<lparr>incoming := es @ stop # rest\<rparr>"
    have r: "recv w s len = Some (int (length d), d, ?w1)"
      using Cons.prems Data d by (simp add: recv_def)
    have off: "unat off = unat offset + length d"
      unfolding off_def using d by (intro step_offset [of _ _ sz]) (simp add: len_def)
    have region: "length region = unat sz"
      "take (unat off) region = take (unat offset) bytes @ map Some d"
      "drop (unat off + k) region = drop (unat offset + length d + k) bytes" for k
      using Cons.prems d by (simp_all add: region_def poke_def off len_def add.commute)
    have "frida_loader_recv_bytes_loop w s bytes sz offset =
        frida_loader_recv_bytes_loop ?w1 s region sz off"
      using ne d r len
      by (simp add: frida_loader_recv_bytes_loop.simps [of w] off_def region_def)
    moreover have "\<exists>w'. frida_loader_recv_bytes_loop ?w1 s region sz off =
           Some (False, take (unat off) region @ map Some (payload es) @
                   drop (unat off + length (payload es)) region, w')
         \<and> incoming w' = (if stop = Eof then Eof # rest else rest)"
      using Cons.prems Data d es off region(1) by (intro Cons.IH) (simp_all add: len_def)
    ultimately show ?thesis
      using Data by (simp add: region(2,3) add.assoc)
  next
    case Eof
    with Cons.prems show ?thesis by simp
  next
    case (Err x)
    with Cons.prems have x: "x = EINTR" and es: "benign es" by simp_all
    let ?w1 = "w\<lparr>errno := x, incoming := es @ stop # rest\<rparr>"
    have r: "recv w s len = Some (- 1, [], ?w1)"
      using Cons.prems Err by (simp add: recv_def)
    have "frida_loader_recv_bytes_loop w s bytes sz offset =
        frida_loader_recv_bytes_loop ?w1 s bytes sz offset"
      using ne r len x by (simp add: frida_loader_recv_bytes_loop.simps [of w])
    moreover have "\<exists>w'. frida_loader_recv_bytes_loop ?w1 s bytes sz offset =
           Some (False, take (unat offset) bytes @ map Some (payload es) @
                   drop (unat offset + length (payload es)) bytes, w')
         \<and> incoming w' = (if stop = Eof then Eof # rest else rest)"
      using Cons.prems Err es by (intro Cons.IH) simp_all
    ultimately show ?thesis
      using Err by simp
  qed
qed

lemma untouched_refl: "untouched w w"
  by (simp add: untouched_def)

lemma untouched_trans: "untouched w w1 \<Longrightarrow> untouched w1 w2 \<Longrightarrow> untouched w w2"
  by (simp add: untouched_def)

lemma recv_untouched: "recv w s len = Some (n, d, w') \<Longrightarrow> untouched w w'"
  by (auto simp: recv_def untouched_def split: list.splits recv_event.splits if_splits)

lemma recv_loop_untouched:
  "frida_loader_recv_bytes_loop w s bytes sz offset = Some (ok, cells, w') \<Longrightarrow> untouched w w'"
proof (induction w s bytes sz offset rule: frida_loader_recv_bytes_loop.induct)
  case (1 w s bytes sz offset)
  show ?case
  proof (cases "offset = sz")
    case True
    with "1.prems" show ?thesis
      by (simp add: frida_loader_recv_bytes_loop.simps [of w] untouched_refl)
  next
    case False
    with "1.prems" obtain n d w1 where r: "recv w s (unat (sz - offset)) = Some (n, d, w1)"
      by (auto simp: frida_loader_recv_bytes_loop.simps [of w] split: option.splits)
    note step = recv_untouched [OF r]
    consider "0 < n" | "n = 0" | "n < 0" "n = - 1 \<and> errno w1 \<noteq> EINTR"
      | "n < 0" "\<not> (n = - 1 \<and> errno w1 \<noteq> EINTR)"
      by linarith
    then show ?thesis
    proof cases
      case 1
      with "1.prems" False r have
        "frida_loader_recv_bytes_loop w1 s (poke bytes (unat offset) d) sz (offset + word_of_int n)
          = Some (ok, cells, w')"
        by (simp add: frida_loader_recv_bytes_loop.simps [of w])
      from "1.IH"(1) [OF False r refl refl 1 this] step show ?thesis
        by (rule untouched_trans [rotated])
    next
      case 2
      with "1.prems" False r step show ?thesis
        by (simp add: frida_loader_recv_bytes_loop.simps [of w])
    next
      case 3
      with "1.prems" False r step show ?thesis
        by (simp add: frida_loader_recv_bytes_loop.simps [of w])
    next
      case 4
      with "1.prems" False r have
        "frida_loader_recv_bytes_loop w1 s bytes sz offset = Some (ok, cells, w')"
        by (simp add: frida_loader_recv_bytes_loop.simps [of w])
      moreover from 4 have "\<not> 0 < n" "n \<noteq> 0" by simp_all
      ultimately have "untouched w1 w'"
        using "1.IH"(2) [OF False r refl refl] 4 by blast
      with step show ?thesis by (rule untouched_trans)
    qed
  qed
qed


subsection \<open>The allocator and \<^verbatim>\<open>frida_loader_recv_value\<close>\<close>

lemma fold_max_ge: "a \<le> fold max xs (a::nat)"
  by (induction xs arbitrary: a) (auto intro: order_trans [OF max.cobounded2])

lemma fold_max_mem: "x \<in> set xs \<Longrightarrow> x \<le> fold max xs (a::nat)"
proof (induction xs arbitrary: a)
  case Nil
  then show ?case by simp
next
  case (Cons y ys)
  show ?case
  proof (cases "x = y")
    case True
    have "y \<le> max y a" by simp
    also have "\<dots> \<le> fold max ys (max y a)" by (rule fold_max_ge)
    finally show ?thesis using True by simp
  next
    case False
    with Cons show ?thesis by simp
  qed
qed

lemma fresh_not_live: "b \<in> set h \<Longrightarrow> fst b \<noteq> fresh h"
proof
  assume "b \<in> set h" and "fst b = fresh h"
  then have "fresh h \<in> set (map fst h)" by force
  then have "fresh h \<le> fold max (map fst h) 0" by (rule fold_max_mem)
  then show False by (simp add: fresh_def)
qed

lemma fresh_not_NULL: "fresh h \<noteq> NULL"
  by (simp add: fresh_def NULL_def)

lemma filter_fresh: "filter (\<lambda>b. fst b \<noteq> fresh h) h = h"
  by (rule filter_True) (simp add: fresh_not_live)

lemma map_fresh: "map (\<lambda>b. if fst b = fresh h then (fresh h, cs) else b) h = h"
  by (rule map_idI) (simp add: fresh_not_live)

lemma map_of_fresh: "map_of h (fresh h) = None"
  by (auto simp: map_of_eq_None_iff dest: fresh_not_live)

text \<open>One allocation, filled and kept, or filled and released.\<close>

lemma store_malloc:
  "malloc w n = (p, w1) \<Longrightarrow> untouched w1 w2 \<Longrightarrow>
     heap (store w2 p cs) = (fresh (heap w), cs) # heap w"
  by (auto simp: malloc_def store_def untouched_def Let_def map_fresh)

lemma free_store_malloc:
  "malloc w n = (p, w1) \<Longrightarrow> untouched w1 w2 \<Longrightarrow> heap (free (store w2 p cs) p) = heap w"
  by (auto simp: malloc_def store_def free_def untouched_def Let_def map_fresh filter_fresh
      fresh_not_NULL)


lemma recv_bytes_untouched:
  "frida_loader_recv_bytes w s bytes sz = Some (ok, cells, w') \<Longrightarrow> untouched w w'"
  unfolding frida_loader_recv_bytes_def by (rule recv_loop_untouched)

lemma recv_value_result:
  assumes "frida_loader_recv_value w s = Some (p, w')"
  shows "fds w' = fds w \<and> trace w' = trace w \<and> outgoing w' = outgoing w \<and>
         send_plan w' = send_plan w \<and> logfile w' = logfile w \<and>
         (if p = NULL then heap w' = heap w
          else p = fresh (heap w) \<and> (\<exists>cs. heap w' = (p, cs) # heap w))"
proof -
  from assms obtain ok cells1 w1 where
    r1: "frida_loader_recv_bytes w s [None] 1 = Some (ok, cells1, w1)"
    by (auto simp: frida_loader_recv_value_def split: option.splits)
  note u1 = recv_bytes_untouched [OF r1]
  show ?thesis
  proof (cases ok)
    case False
    with assms r1 have "p = NULL" "w' = w1"
      by (simp_all add: frida_loader_recv_value_def)
    with u1 show ?thesis by (simp add: untouched_def)
  next
    case True
    with assms r1 obtain sz tl where cells1: "cells1 = Some sz # tl"
      by (auto simp: frida_loader_recv_value_def split: list.splits option.splits)
    obtain buf w2 where m: "malloc w1 (unat sz) = (buf, w2)"
      by (cases "malloc w1 (unat sz)")
    then have buf: "buf = fresh (heap w)"
      using u1 by (auto simp: malloc_def Let_def untouched_def)
    from m have w2: "fds w2 = fds w1" "trace w2 = trace w1" "outgoing w2 = outgoing w1"
      "send_plan w2 = send_plan w1" "logfile w2 = logfile w1"
      by (auto simp: malloc_def Let_def)
    from assms r1 True cells1 m obtain ok2 cells w3 where
      r2: "frida_loader_recv_bytes w2 s (replicate (unat sz) None) (ucast sz)
             = Some (ok2, cells, w3)"
      and res: "(p, w') = (if \<not> ok2 then (NULL, free (store w3 buf cells) buf)
                          else (buf, store w3 buf cells))"
      by (auto simp: frida_loader_recv_value_def split: option.splits if_splits)
    note u2 = recv_bytes_untouched [OF r2]
    have h1: "heap (store w3 buf cells) = (fresh (heap w1), cells) # heap w1"
      using m u2 by (rule store_malloc)
    have h2: "heap (free (store w3 buf cells) buf) = heap w1"
      using m u2 by (rule free_store_malloc)
    have rest: "fds (store w3 buf cells) = fds w" "trace (store w3 buf cells) = trace w"
      "outgoing (store w3 buf cells) = outgoing w" "send_plan (store w3 buf cells) = send_plan w"
      "logfile (store w3 buf cells) = logfile w"
      "fds (free (store w3 buf cells) buf) = fds w" "trace (free (store w3 buf cells) buf) = trace w"
      "outgoing (free (store w3 buf cells) buf) = outgoing w"
      "send_plan (free (store w3 buf cells) buf) = send_plan w"
      "logfile (free (store w3 buf cells) buf) = logfile w"
      using u1 u2 w2 by (simp_all add: store_def free_def untouched_def)
    show ?thesis
    proof (cases ok2)
      case True
      with res have "p = buf" "w' = store w3 buf cells" by simp_all
      with h1 rest buf u1 show ?thesis
        by (simp add: fresh_not_NULL untouched_def)
    next
      case False
      with res have "p = NULL" "w' = free (store w3 buf cells) buf" by simp_all
      with h2 rest u1 show ?thesis
        by (simp add: untouched_def)
    qed
  qed
qed


lemma recv_bytes_fills:
  assumes "benign pre" and "incoming w = pre @ rest" and "unat sz \<le> length (payload pre)"
    and "length bytes = unat sz"
  shows "\<exists>w' pre'. frida_loader_recv_bytes w s bytes sz =
           Some (True, map Some (take (unat sz) (payload pre)), w')
         \<and> incoming w' = pre' @ rest \<and> benign pre' \<and> payload pre' = drop (unat sz) (payload pre)"
  using recv_loop_fills [OF assms(1,2), of 0 sz bytes s] assms(3,4)
  by (simp add: frida_loader_recv_bytes_def)

lemma recv_bytes_fails:
  assumes "benign pre" and "incoming w = pre @ stop # rest"
    and "stop = Eof \<or> (\<exists>x. stop = Err x \<and> x \<noteq> EINTR)"
    and "length (payload pre) < unat sz"
  shows "\<exists>cells w'. frida_loader_recv_bytes w s bytes sz = Some (False, cells, w')"
  using recv_loop_fails [OF assms(1,2,3), of 0 sz s bytes] assms(4)
  by (simp add: frida_loader_recv_bytes_def)

lemma unat_size_of_byte: "unat (ucast (n :: byte) :: size_t) = unat n"
proof -
  have "unat n < 2 ^ 8"
    using unsigned_less [of n] by simp
  then have "unat n < 2 ^ 64"
    by simp
  then show ?thesis
    by (simp add: unsigned_ucast_eq take_bit_nat_eq_self)
qed

lemma malloc_incoming: "malloc w n = (p, w1) \<Longrightarrow> incoming w1 = incoming w"
  by (auto simp: malloc_def Let_def)

lemma recv_value_receives:
  assumes "benign pre" and "incoming w = pre @ rest" and "payload pre = n # body @ tail"
    and "length body = unat n"
  shows "\<exists>w' pre'. frida_loader_recv_value w s = Some (fresh (heap w), w')
         \<and> heap w' = (fresh (heap w), map Some body) # heap w
         \<and> incoming w' = pre' @ rest \<and> benign pre' \<and> payload pre' = tail"
proof -
  from recv_bytes_fills [OF assms(1,2), of 1 "[None]" s] assms(3)
  obtain w1 pre1 where r1: "frida_loader_recv_bytes w s [None] 1 = Some (True, [Some n], w1)"
    and i1: "incoming w1 = pre1 @ rest" "benign pre1" "payload pre1 = body @ tail"
    by auto
  note u1 = recv_bytes_untouched [OF r1]
  obtain buf w2 where m: "malloc w1 (unat n) = (buf, w2)"
    by (cases "malloc w1 (unat n)")
  have i2: "incoming w2 = pre1 @ rest"
    using malloc_incoming [OF m] i1 by simp
  from recv_bytes_fills [OF i1(2) i2, of "ucast n" "replicate (unat n) None" s] i1(3) assms(4)
  obtain w3 pre3 where
    r2: "frida_loader_recv_bytes w2 s (replicate (unat n) None) (ucast n)
           = Some (True, map Some body, w3)"
    and i3: "incoming w3 = pre3 @ rest" "benign pre3" "payload pre3 = tail"
    by (auto simp: unat_size_of_byte)
  note u2 = recv_bytes_untouched [OF r2]
  have buf: "buf = fresh (heap w)"
    using m u1 by (auto simp: malloc_def Let_def untouched_def)
  have "frida_loader_recv_value w s = Some (buf, store w3 buf (map Some body))"
    using r1 m r2 by (simp add: frida_loader_recv_value_def)
  moreover have "heap (store w3 buf (map Some body)) = (fresh (heap w), map Some body) # heap w"
    using store_malloc [OF m u2] u1 by (simp add: untouched_def)
  moreover have "incoming (store w3 buf (map Some body)) = pre3 @ rest"
    using i3 by (simp add: store_def)
  ultimately show ?thesis
    using i3 buf by blast
qed

lemma recv_value_fails:
  assumes "benign pre" and "incoming w = pre @ stop # rest"
    and "stop = Eof \<or> (\<exists>x. stop = Err x \<and> x \<noteq> EINTR)"
    and "payload pre = [] \<or> (\<exists>n body. payload pre = n # body \<and> length body < unat n)"
  shows "\<exists>w'. frida_loader_recv_value w s = Some (NULL, w')"
  using assms(4)
proof
  assume "payload pre = []"
  with recv_bytes_fails [OF assms(1,2,3), of 1 s "[None]"]
  show ?thesis
    by (auto simp: frida_loader_recv_value_def)
next
  assume "\<exists>n body. payload pre = n # body \<and> length body < unat n"
  then obtain n body where p: "payload pre = n # body" and short: "length body < unat n"
    by blast
  from recv_bytes_fills [OF assms(1,2), of 1 "[None]" s] p
  obtain w1 pre1 where r1: "frida_loader_recv_bytes w s [None] 1 = Some (True, [Some n], w1)"
    and i1: "incoming w1 = pre1 @ stop # rest" "benign pre1" "payload pre1 = body"
    by auto
  obtain buf w2 where m: "malloc w1 (unat n) = (buf, w2)"
    by (cases "malloc w1 (unat n)")
  have i2: "incoming w2 = pre1 @ stop # rest"
    using malloc_incoming [OF m] i1 by simp
  from recv_bytes_fails [OF i1(2) i2 assms(3), of "ucast n" s "replicate (unat n) None"]
    i1(3) short
  obtain cells w3 where
    "frida_loader_recv_bytes w2 s (replicate (unat n) None) (ucast n) = Some (False, cells, w3)"
    by (auto simp: unat_size_of_byte)
  with r1 m show ?thesis
    by (simp add: frida_loader_recv_value_def)
qed

subsection \<open>\<^verbatim>\<open>frida_loader_run\<close>\<close>

lemma asprintf_result:
  "asprintf w text = (fresh (heap w),
     w\<lparr>heap := (fresh (heap w), map Some (text @ [0])) # heap w\<rparr>)"
  by (simp add: asprintf_def malloc_def store_def Let_def map_fresh)

lemma load_live_not_fresh: "load w p = Some cells \<Longrightarrow> p \<noteq> fresh (heap w)"
  using map_of_fresh [of "heap w"] by (auto simp: load_def)

lemma map_of_filter_out: "map_of (filter (\<lambda>b. fst b \<noteq> p) h) p = None"
  by (auto simp: map_of_eq_None_iff)

lemma filter_fresh_also: "filter (\<lambda>b. fst b \<noteq> fresh h \<and> Q b) h = filter Q h"
  by (rule filter_cong) (auto dest: fresh_not_live)

lemma frida_loader_run_loaded:
  assumes "dlopen_result e \<noteq> NULL" and "dlsym_result e \<noteq> NULL"
    and "p \<noteq> NULL" and "load w p = Some cells"
  shows "frida_loader_run e w p = Returned
     (w\<lparr>heap := filter (\<lambda>b. fst b \<noteq> p) (heap w),
        trace := trace w @
         [Dlopen (cstring (map Some (frida_data_dir e @ bytes_of ''/frida-agent.dylib'' @ [0])))
            (dlopen_result e),
          Dlsym (dlopen_result e) (bytes_of ''frida_agent_main'') (dlsym_result e),
          AgentMain p NULL 0 (Some cells),
          Dlclose (dlopen_result e)]\<rparr>)"
proof -
  have ne: "p \<noteq> fresh (heap w)"
    using assms(4) by (rule load_live_not_fresh)
  then have ne': "fresh (heap w) \<noteq> p" by simp
  show ?thesis
    using assms ne ne'
    by (simp add: frida_loader_run_def asprintf_result dlopen_def dlsym_def agent_main_def
        dlclose_def run_beach_def free_def load_def fresh_not_NULL filter_fresh_also)
qed


subsection \<open>Sending a value\<close>

lemma send_loop_done: "frida_loader_send_bytes_loop w s bytes sz sz = (True, w)"
  by (simp add: frida_loader_send_bytes_loop.simps)

lemma send_loop_sends:
  assumes "send_plan w = plan" and "no_fatal plan" and "unat offset \<le> unat sz"
  shows "\<exists>w'. frida_loader_send_bytes_loop w s bytes sz offset = (True, w')
     \<and> outgoing w' = outgoing w @ take (unat sz - unat offset) (drop (unat offset) bytes)
     \<and> no_fatal (send_plan w') \<and> only_sent w w'"
  using assms
proof (induction plan arbitrary: w offset)
  case Nil
  show ?case
  proof (cases "offset = sz")
    case True
    with Nil show ?thesis by (simp add: send_loop_done only_sent_def)
  next
    case False
    define len where "len = unat sz - unat offset"
    have len: "unat (sz - offset) = len"
      using Nil.prems by (simp add: len_def left_len)
    define buf where "buf = drop (unat offset) bytes"
    let ?w1 = "w\<lparr>outgoing := outgoing w @ take len buf\<rparr>"
    have r: "send w s buf len = (int len, ?w1)"
      using Nil.prems by (simp add: send_def)
    have off: "offset + word_of_int (int len) = sz"
      using Nil.prems by (intro step_to_end) (simp add: len_def)
    have "int len \<noteq> - 1" by simp
    with False r len off
    have "frida_loader_send_bytes_loop w s bytes sz offset = (True, ?w1)"
      by (simp add: frida_loader_send_bytes_loop.simps [of w] send_loop_done buf_def
          del: of_nat_eq_iff)
    with Nil.prems show ?thesis
      by (simp add: only_sent_def len_def buf_def)
  qed
next
  case (Cons a es)
  show ?case
  proof (cases "offset = sz")
    case True
    with Cons.prems show ?thesis by (simp add: send_loop_done only_sent_def)
  next
    case False
    define len where "len = unat sz - unat offset"
    have len: "unat (sz - offset) = len"
      using Cons.prems by (simp add: len_def left_len)
    define buf where "buf = drop (unat offset) bytes"
    show ?thesis
    proof (cases a)
      case (Accept k)
      define m where "m = min k len"
      define off where "off = offset + word_of_int (int m)"
      let ?w1 = "w\<lparr>outgoing := outgoing w @ take m buf, send_plan := es\<rparr>"
      have r: "send w s buf len = (int m, ?w1)"
        using Cons.prems Accept by (simp add: send_def m_def)
      have off: "unat off = unat offset + m"
        unfolding off_def using Cons.prems
        by (intro step_offset [of _ _ sz]) (simp add: len_def m_def)
      have "int m \<noteq> - 1" by simp
      with False r len
      have unfold: "frida_loader_send_bytes_loop w s bytes sz offset =
          frida_loader_send_bytes_loop ?w1 s bytes sz off"
        by (simp add: frida_loader_send_bytes_loop.simps [of w] buf_def off_def)
      have "\<exists>w'. frida_loader_send_bytes_loop ?w1 s bytes sz off = (True, w')
         \<and> outgoing w' = outgoing ?w1 @ take (unat sz - unat off) (drop (unat off) bytes)
         \<and> no_fatal (send_plan w') \<and> only_sent ?w1 w'"
        using Cons.prems Accept off by (intro Cons.IH) (simp_all add: m_def len_def)
      moreover have "take m buf @ take (unat sz - unat off) (drop (unat off) bytes)
          = take (unat sz - unat offset) (drop (unat offset) bytes)"
      proof -
        have "unat sz - unat offset = m + (unat sz - unat off)"
          using off Cons.prems by (simp add: m_def len_def)
        then show ?thesis
          by (simp add: take_add buf_def off add.commute)
      qed
      ultimately show ?thesis
        unfolding unfold by (auto simp: only_sent_def)
    next
      case (SendErr x)
      with Cons.prems have x: "x = EINTR" and es: "no_fatal es" by simp_all
      let ?w1 = "w\<lparr>errno := x, send_plan := es\<rparr>"
      have r: "send w s buf len = (- 1, ?w1)"
        using Cons.prems SendErr by (simp add: send_def)
      with False len x
      have unfold: "frida_loader_send_bytes_loop w s bytes sz offset =
          frida_loader_send_bytes_loop ?w1 s bytes sz offset"
        by (simp add: frida_loader_send_bytes_loop.simps [of w] buf_def)
      have "\<exists>w'. frida_loader_send_bytes_loop ?w1 s bytes sz offset = (True, w')
         \<and> outgoing w' = outgoing ?w1 @ take (unat sz - unat offset) (drop (unat offset) bytes)
         \<and> no_fatal (send_plan w') \<and> only_sent ?w1 w'"
        using Cons.prems es by (intro Cons.IH) simp_all
      then show ?thesis
        unfolding unfold by (auto simp: only_sent_def)
    qed
  qed
qed

lemma send_bytes_sends:
  assumes "no_fatal (send_plan w)"
  shows "\<exists>w'. frida_loader_send_bytes w s bytes sz = (True, w')
     \<and> outgoing w' = outgoing w @ take (unat sz) bytes
     \<and> no_fatal (send_plan w') \<and> only_sent w w'"
  using send_loop_sends [OF refl assms, of 0 sz s bytes]
  by (simp add: frida_loader_send_bytes_def)

lemma only_sent_trans: "only_sent w w1 \<Longrightarrow> only_sent w1 w2 \<Longrightarrow> only_sent w w2"
  by (simp add: only_sent_def)

lemma unat_byte_of_nat: "unat (word_of_nat k :: byte) = k mod 256"
  by (simp add: unat_of_nat take_bit_eq_mod)

lemma send_value_sends:
  assumes "no_fatal (send_plan w)"
  shows "\<exists>w'. frida_loader_send_value w s v = (True, w')
     \<and> outgoing w' = outgoing w @ word_of_nat (strlen v) # take (strlen v mod 256) v
     \<and> no_fatal (send_plan w') \<and> only_sent w w'"
proof -
  define sz :: byte where "sz = word_of_nat (strlen v)"
  from send_bytes_sends [OF assms, of s "[sz]" 1] obtain w1 where
    r1: "frida_loader_send_bytes w s [sz] 1 = (True, w1)"
    and o1: "outgoing w1 = outgoing w @ [sz]" and p1: "no_fatal (send_plan w1)"
    and u1: "only_sent w w1"
    by auto
  from send_bytes_sends [OF p1, of s v "ucast sz"] obtain w2 where
    r2: "frida_loader_send_bytes w1 s v (ucast sz) = (True, w2)"
    and o2: "outgoing w2 = outgoing w1 @ take (unat sz) v" and p2: "no_fatal (send_plan w2)"
    and u2: "only_sent w1 w2"
    by (auto simp: unat_size_of_byte)
  have "frida_loader_send_value w s v = (True, w2)"
    using r1 r2 by (simp add: frida_loader_send_value_def sz_def [symmetric])
  moreover have "outgoing w2 = outgoing w @ word_of_nat (strlen v) # take (strlen v mod 256) v"
    using o1 o2 by (simp add: sz_def unat_byte_of_nat)
  ultimately show ?thesis
    using p2 only_sent_trans [OF u1 u2] by blast
qed


lemma strlen_array: "strlen (val @ 0 # junk) = length (takeWhile (\<lambda>b. b \<noteq> 0) val)"
  by (induction val) (simp_all add: strlen_def)

lemma takeWhile_string: "0 \<notin> set str \<Longrightarrow> takeWhile (\<lambda>b. b \<noteq> 0) str = str"
  by (induction str) auto

lemma strlen_string: "0 \<notin> set str \<Longrightarrow> strlen (str @ 0 # junk) = length str"
  by (simp add: strlen_array takeWhile_string)

lemma take_strlen_array:
  "take (length (takeWhile (\<lambda>b. b \<noteq> 0) val)) (val @ 0 # junk) = takeWhile (\<lambda>b. b \<noteq> (0::byte)) val"
  by (induction val) simp_all

lemma codec_transfer:
  assumes short: "length (takeWhile (\<lambda>b. b \<noteq> 0) val) \<le> 255"
    and plan: "no_fatal (send_plan wa)"
    and es: "benign es" "incoming wb = es @ rest"
    and wire: "outgoing (snd (frida_loader_send_value wa sa (val @ 0 # junk))) =
                 outgoing wa @ payload es"
  shows "fst (frida_loader_send_value wa sa (val @ 0 # junk))
     \<and> payload es = word_of_nat (length (takeWhile (\<lambda>b. b \<noteq> 0) val)) #
                      takeWhile (\<lambda>b. b \<noteq> 0) val
     \<and> (\<exists>p wb'. frida_loader_recv_value wb sb = Some (p, wb') \<and> p \<noteq> NULL
           \<and> load wb' p = Some (map Some (takeWhile (\<lambda>b. b \<noteq> 0) val)))"
proof -
  define cs where "cs = takeWhile (\<lambda>b. b \<noteq> 0) val"
  define n :: byte where "n = word_of_nat (length cs)"
  have len: "length cs mod 256 = length cs"
    using short by (simp add: cs_def)
  have prefix: "take (length cs) (val @ 0 # junk) = cs"
    unfolding cs_def by (rule take_strlen_array)
  from send_value_sends [OF plan, of sa "val @ 0 # junk"] obtain wa' where
    sent: "frida_loader_send_value wa sa (val @ 0 # junk) = (True, wa')"
    and "outgoing wa' = outgoing wa @
           word_of_nat (strlen (val @ 0 # junk)) #
           take (strlen (val @ 0 # junk) mod 256) (val @ 0 # junk)"
    by blast
  then have out: "outgoing wa' = outgoing wa @ n # cs"
    by (simp only: strlen_array cs_def [symmetric] len prefix n_def)
  from sent out wire have p: "payload es = n # cs @ []"
    by simp
  have "length cs = unat n"
    by (simp add: n_def unat_byte_of_nat len)
  from recv_value_receives [OF es p this, of sb] obtain wb' where
    r: "frida_loader_recv_value wb sb = Some (fresh (heap wb), wb')"
    and h: "heap wb' = (fresh (heap wb), map Some cs) # heap wb"
    by blast
  have "load wb' (fresh (heap wb)) = Some (map Some cs)"
    using h by (simp add: load_def)
  with sent p r show ?thesis
    unfolding cs_def [symmetric] n_def [symmetric] by (simp add: fresh_not_NULL)
qed

subsection \<open>\<^verbatim>\<open>frida_loader_on_load\<close> up to the first receive\<close>

lemma frida_loader_send_ok:
  assumes "no_fatal (send_plan w)"
  shows "\<exists>w'. frida_loader_send w s text = (True, w') \<and> only_sent w w'"
proof -
  define v where "v = fresh (heap w)"
  define w1 where "w1 = w\<lparr>heap := (v, map Some (text @ [0])) # heap w\<rparr>"
  have a: "asprintf w text = (v, w1)"
    by (simp add: asprintf_result v_def w1_def)
  have "no_fatal (send_plan w1)"
    using assms by (simp add: w1_def)
  from send_value_sends [OF this, of s "text @ [0]"] obtain w2 where
    r: "frida_loader_send_value w1 s (text @ [0]) = (True, w2)" and u: "only_sent w1 w2"
    by blast
  have "frida_loader_send w s text = (True, free w2 v)"
    using a r by (simp add: frida_loader_send_def)
  moreover have "only_sent w (free w2 v)"
    using u by (simp add: only_sent_def free_def w1_def v_def fresh_not_NULL filter_fresh)
  ultimately show ?thesis by blast
qed

lemma cstring_array: "cstring (map Some v) = takeWhile (\<lambda>b. b \<noteq> 0) v"
  by (induction v) simp_all

lemma string_at_head: "heap w = (p, cs) # h \<Longrightarrow> string_at w p = cstring cs"
  by (simp add: string_at_def load_def)

lemma on_load_to_recv:
  assumes "socket_result e \<noteq> - 1" and "connect_result e \<noteq> - 1" and "no_fatal (send_plan w)"
    and "strlen (frida_data_dir e @ bytes_of ''/callback'' @ [0]) < 104"
  obtains w5 where
    "heap w5 = (fresh (heap w), map Some (frida_data_dir e @ bytes_of ''/callback'' @ [0])) # heap w"
    and "fds w5 = insert (socket_result e) (fds w)"
    and "trace w5 = trace w" and "incoming w5 = incoming w"
    and "frida_loader_on_load e w =
      (case frida_loader_recv_value w5 (socket_result e) of
         None \<Rightarrow> Blocks
       | Some (pipe_address, w6) \<Rightarrow>
           if pipe_address = NULL
           then Returns (on_load_beach w6 (socket_result e) (fresh (heap w)))
           else
             (let (thread, w7) = pthread_create e w6 pipe_address;
                  w8 = pthread_detach w7 thread
              in case frida_loader_recv_value w8 (socket_result e) of
                   None \<Rightarrow> Blocks
                 | Some (permission_to_resume, w9) \<Rightarrow>
                     Returns (on_load_beach (free w9 permission_to_resume)
                             (socket_result e) (fresh (heap w)))))"
proof -
  define w1 where "w1 = frida_log e w (bytes_of ''frida_loader_on_load'' @ [10])"
  define cp where "cp = fresh (heap w)"
  define pathname where "pathname = frida_data_dir e @ bytes_of ''/callback''"
  define blk where "blk = map Some (pathname @ [0])"
  define w3 where "w3 = w1\<lparr>heap := (cp, blk) # heap w, fds := insert (socket_result e) (fds w)\<rparr>"
  have w1: "heap w1 = heap w" "fds w1 = fds w" "trace w1 = trace w" "incoming w1 = incoming w"
    "send_plan w1 = send_plan w"
    by (simp_all add: w1_def frida_log_def)
  have "no_fatal (send_plan w3)"
    using assms(3) w1 by (simp add: w3_def)
  from frida_loader_send_ok [OF this, of "socket_result e" "decimal (getpid e)"]
  obtain w5 where s: "frida_loader_send w3 (socket_result e) (decimal (getpid e)) = (True, w5)"
    and u: "only_sent w3 w5"
    by blast
  have a: "asprintf w1 pathname = (cp, w1\<lparr>heap := (cp, blk) # heap w\<rparr>)"
    by (simp add: asprintf_result w1 cp_def blk_def)
  have "cstring blk = takeWhile (\<lambda>b. b \<noteq> 0) (pathname @ [0])"
    unfolding blk_def by (rule cstring_array)
  then have "length (cstring blk) = strlen (frida_data_dir e @ bytes_of ''/callback'' @ [0])"
    by (simp only: strlen_def pathname_def append_assoc)
  with assms(4) have "length (cstring blk) < 104"
    by simp
  then have sc: "strcpy (replicate 104 None) (cstring blk) =
      Some (poke (replicate 104 None) 0 (cstring blk @ [0]))"
    by (simp add: strcpy_def)
  show thesis
  proof (rule that [of w5])
    show "heap w5 =
        (fresh (heap w), map Some (frida_data_dir e @ bytes_of ''/callback'' @ [0])) # heap w"
      using u by (simp add: only_sent_def w3_def cp_def blk_def pathname_def)
    show "fds w5 = insert (socket_result e) (fds w)"
      using u by (simp add: only_sent_def w3_def)
    show "trace w5 = trace w"
      using u w1 by (simp add: only_sent_def w3_def)
    show "incoming w5 = incoming w"
      using u w1 by (simp add: only_sent_def w3_def)
    show "frida_loader_on_load e w =
      (case frida_loader_recv_value w5 (socket_result e) of
         None \<Rightarrow> Blocks
       | Some (pipe_address, w6) \<Rightarrow>
           if pipe_address = NULL
           then Returns (on_load_beach w6 (socket_result e) (fresh (heap w)))
           else
             (let (thread, w7) = pthread_create e w6 pipe_address;
                  w8 = pthread_detach w7 thread
              in case frida_loader_recv_value w8 (socket_result e) of
                   None \<Rightarrow> Blocks
                 | Some (permission_to_resume, w9) \<Rightarrow>
                     Returns (on_load_beach (free w9 permission_to_resume)
                             (socket_result e) (fresh (heap w)))))"
      using assms(1,2) s
      unfolding frida_loader_on_load_def w1_def [symmetric] pathname_def [symmetric]
      by (simp add: a socket_def connect_def w3_def w1 cp_def string_at_head sc)
  qed
qed

text \<open>When the path of the control socket does not fit, the copy overflows.\<close>

lemma on_load_overflows:
  assumes "socket_result e \<noteq> - 1"
    and "104 \<le> strlen (frida_data_dir e @ bytes_of ''/callback'' @ [0])"
  shows "frida_loader_on_load e w = Overflows"
proof -
  define w1 where "w1 = frida_log e w (bytes_of ''frida_loader_on_load'' @ [10])"
  define pathname where "pathname = frida_data_dir e @ bytes_of ''/callback''"
  define blk where "blk = map Some (pathname @ [0])"
  have a: "asprintf w1 pathname = (fresh (heap w1), w1\<lparr>heap := (fresh (heap w1), blk) # heap w1\<rparr>)"
    by (simp add: asprintf_result blk_def)
  have "cstring blk = takeWhile (\<lambda>b. b \<noteq> 0) (pathname @ [0])"
    unfolding blk_def by (rule cstring_array)
  then have "length (cstring blk) = strlen (frida_data_dir e @ bytes_of ''/callback'' @ [0])"
    by (simp only: strlen_def pathname_def append_assoc)
  with assms(2) have "104 \<le> length (cstring blk)"
    by simp
  then have sc: "strcpy (replicate 104 None) (cstring blk) = None"
    by (simp add: strcpy_def)
  show ?thesis
    using assms(1)
    unfolding frida_loader_on_load_def w1_def [symmetric] pathname_def [symmetric]
    by (simp add: a socket_def string_at_head sc)
qed

subsection \<open>\<^verbatim>\<open>frida_loader_on_load\<close> when a receive fails\<close>

lemma on_load_beach_result:
  assumes "s \<noteq> - 1"
  shows "heap (on_load_beach w s cp) = heap (free w cp)"
    and "fds (on_load_beach w s cp) = fds w - {s}"
    and "trace (on_load_beach w s cp) = trace w @ [Close s]"
  using assms by (simp_all add: on_load_beach_def close_def free_def)

lemma on_load_first_receive_fails:
  assumes "socket_result e \<noteq> - 1" and "connect_result e \<noteq> - 1" and "no_fatal (send_plan w)"
    and "strlen (frida_data_dir e @ bytes_of ''/callback'' @ [0]) < 104"
    and "benign pre" and "incoming w = pre @ stop # rest"
    and "stop = Eof \<or> (\<exists>x. stop = Err x \<and> x \<noteq> EINTR)"
    and "payload pre = [] \<or> (\<exists>n body. payload pre = n # body \<and> length body < unat n)"
  shows "\<exists>w'. frida_loader_on_load e w = Returns w'
     \<and> trace w' = trace w @ [Close (socket_result e)]
     \<and> fds w' = fds w - {socket_result e} \<and> heap w' = heap w"
proof -
  from on_load_to_recv [OF assms(1-4)] obtain w5 where
    h5: "heap w5 = (fresh (heap w),
           map Some (frida_data_dir e @ bytes_of ''/callback'' @ [0])) # heap w"
    and f5: "fds w5 = insert (socket_result e) (fds w)"
    and t5: "trace w5 = trace w" and i5: "incoming w5 = incoming w"
    and run: "frida_loader_on_load e w =
      (case frida_loader_recv_value w5 (socket_result e) of
         None \<Rightarrow> Blocks
       | Some (pipe_address, w6) \<Rightarrow>
           if pipe_address = NULL
           then Returns (on_load_beach w6 (socket_result e) (fresh (heap w)))
           else
             (let (thread, w7) = pthread_create e w6 pipe_address;
                  w8 = pthread_detach w7 thread
              in case frida_loader_recv_value w8 (socket_result e) of
                   None \<Rightarrow> Blocks
                 | Some (permission_to_resume, w9) \<Rightarrow>
                     Returns (on_load_beach (free w9 permission_to_resume)
                             (socket_result e) (fresh (heap w)))))" .
  have "incoming w5 = pre @ stop # rest"
    using i5 assms(6) by simp
  from recv_value_fails [OF assms(5) this assms(7,8), of "socket_result e"] obtain w6 where
    r: "frida_loader_recv_value w5 (socket_result e) = Some (NULL, w6)" ..
  from recv_value_result [OF r] have w6: "heap w6 = heap w5" "fds w6 = fds w5" "trace w6 = trace w5"
    by simp_all
  have "frida_loader_on_load e w = Returns (on_load_beach w6 (socket_result e) (fresh (heap w)))"
    using run r by simp
  moreover have "heap (on_load_beach w6 (socket_result e) (fresh (heap w))) = heap w"
    using assms(1) w6 h5
    by (simp add: on_load_beach_result free_def fresh_not_NULL filter_fresh)
  moreover have "fds (on_load_beach w6 (socket_result e) (fresh (heap w))) = fds w - {socket_result e}"
    using assms(1) w6 f5 by (simp add: on_load_beach_result)
  moreover have "trace (on_load_beach w6 (socket_result e) (fresh (heap w)))
      = trace w @ [Close (socket_result e)]"
    using assms(1) w6 t5 by (simp add: on_load_beach_result)
  ultimately show ?thesis by simp
qed

lemma on_load_second_receive_fails:
  assumes "socket_result e \<noteq> - 1" and "connect_result e \<noteq> - 1" and "no_fatal (send_plan w)"
    and "strlen (frida_data_dir e @ bytes_of ''/callback'' @ [0]) < 104"
    and "benign pre" and "incoming w = pre @ stop # rest"
    and "stop = Eof \<or> (\<exists>x. stop = Err x \<and> x \<noteq> EINTR)"
    and "payload pre = n # body @ tail" and "length body = unat n"
    and "tail = [] \<or> (\<exists>m body2. tail = m # body2 \<and> length body2 < unat m)"
  shows "\<exists>w' p. frida_loader_on_load e w = Returns w' \<and> p \<noteq> NULL
     \<and> heap w' = (p, map Some body) # heap w
     \<and> fds w' = fds w - {socket_result e}
     \<and> trace w' = trace w @
          (if pthread_create_result e = 0
           then [ThreadCreate p, ThreadDetach (length (trace w))] else []) @
          [Close (socket_result e)]"
proof -
  define cp where "cp = fresh (heap w)"
  from on_load_to_recv [OF assms(1-4)] obtain w5 where
    h5: "heap w5 = (cp, map Some (frida_data_dir e @ bytes_of ''/callback'' @ [0])) # heap w"
    and f5: "fds w5 = insert (socket_result e) (fds w)"
    and t5: "trace w5 = trace w" and i5: "incoming w5 = incoming w"
    and run: "frida_loader_on_load e w =
      (case frida_loader_recv_value w5 (socket_result e) of
         None \<Rightarrow> Blocks
       | Some (pipe_address, w6) \<Rightarrow>
           if pipe_address = NULL
           then Returns (on_load_beach w6 (socket_result e) cp)
           else
             (let (thread, w7) = pthread_create e w6 pipe_address;
                  w8 = pthread_detach w7 thread
              in case frida_loader_recv_value w8 (socket_result e) of
                   None \<Rightarrow> Blocks
                 | Some (permission_to_resume, w9) \<Rightarrow>
                     Returns (on_load_beach (free w9 permission_to_resume)
                             (socket_result e) cp)))"
    unfolding cp_def .
  define p where "p = fresh (heap w5)"
  have p: "p \<noteq> NULL" "p \<noteq> cp"
    using fresh_not_live [of "(cp, map Some (frida_data_dir e @ bytes_of ''/callback'' @ [0]))"
        "heap w5"] h5
    by (simp_all add: p_def fresh_not_NULL)
  have "incoming w5 = pre @ stop # rest"
    using i5 assms(6) by simp
  from recv_value_receives [OF assms(5) this assms(8,9), of "socket_result e"]
  obtain w6 pre' where
    r1: "frida_loader_recv_value w5 (socket_result e) = Some (p, w6)"
    and h6: "heap w6 = (p, map Some body) # heap w5"
    and i6: "incoming w6 = pre' @ stop # rest" "benign pre'" "payload pre' = tail"
    unfolding p_def by blast
  from recv_value_result [OF r1] have w6: "fds w6 = fds w5" "trace w6 = trace w5"
    by simp_all
  define w8 where "w8 = pthread_detach (snd (pthread_create e w6 p)) (fst (pthread_create e w6 p))"
  have w8: "heap w8 = heap w6" "fds w8 = fds w6" "incoming w8 = incoming w6"
    "trace w8 = trace w6 @ (if pthread_create_result e = 0
       then [ThreadCreate p, ThreadDetach (length (trace w6))] else [])"
    by (simp_all add: w8_def pthread_create_def pthread_detach_def)
  have "incoming w8 = pre' @ stop # rest"
    using w8 i6 by simp
  from recv_value_fails [OF i6(2) this assms(7), of "socket_result e"] i6(3) assms(10)
  obtain w9 where r2: "frida_loader_recv_value w8 (socket_result e) = Some (NULL, w9)"
    by auto
  from recv_value_result [OF r2] have w9: "heap w9 = heap w8" "fds w9 = fds w8" "trace w9 = trace w8"
    by simp_all
  have "frida_loader_on_load e w = Returns (on_load_beach w9 (socket_result e) cp)"
    using run r1 r2 p(1)
    by (simp add: w8_def [symmetric] split_beta Let_def free_def)
  moreover have "heap (on_load_beach w9 (socket_result e) cp) = (p, map Some body) # heap w"
    using assms(1) w9 w8 h6 h5 p
    by (simp add: on_load_beach_result free_def cp_def fresh_not_NULL filter_fresh)
  moreover have "fds (on_load_beach w9 (socket_result e) cp) = fds w - {socket_result e}"
    using assms(1) w9 w8 w6 f5 by (simp add: on_load_beach_result)
  moreover have "trace (on_load_beach w9 (socket_result e) cp) = trace w @
          (if pthread_create_result e = 0
           then [ThreadCreate p, ThreadDetach (length (trace w))] else []) @
          [Close (socket_result e)]"
    using assms(1) w9 w8 w6 t5 by (simp add: on_load_beach_result)
  ultimately show ?thesis
    using p(1) by blast
qed


subsection \<open>The claims\<close>

text \<open>
  C5, as stated, fails in one point: there is a partial hand-off. The function fills the
  buffer of its caller in place, so when the peer closes after two of three bytes the
  function returns false and the two bytes are in the buffer.
\<close>

theorem partial_bytes_stay_counterexample:
  "map_option fst
     (frida_loader_recv_bytes (idle\<lparr>incoming := [Data [7], Data [8], Eof]\<rparr>) 3 [None, None, None] 3)
     = Some False
   \<and> map_option (fst \<circ> snd)
     (frida_loader_recv_bytes (idle\<lparr>incoming := [Data [7], Data [8], Eof]\<rparr>) 3 [None, None, None] 3)
     = Some [Some 7, Some 8, None]"
  by code_simp

text \<open>
  C5, amended: \<^verbatim>\<open>frida_loader_recv_bytes\<close> fills exactly the requested count, however the
  peer fragments the data and however often a signal interrupts the call: the region then
  holds the first \<open>sz\<close> bytes of what arrived, in order. If the peer closes, or a
  receive fails for another reason than an interruption, before the count is filled,
  the function returns false; the bytes that arrived before are in the region of the
  caller, in order, and the rest of the region is as it was.
\<close>

theorem frida_loader_recv_bytes_exact:
  assumes "benign pre" and "length bytes = unat sz"
  shows "(unat sz \<le> length (payload pre) \<and> incoming w = pre @ rest \<longrightarrow>
            (\<exists>w'. frida_loader_recv_bytes w s bytes sz =
               Some (True, map Some (take (unat sz) (payload pre)), w')))
       \<and> (length (payload pre) < unat sz \<and> incoming w = pre @ Eof # rest \<longrightarrow>
            (\<exists>w'. frida_loader_recv_bytes w s bytes sz =
               Some (False, map Some (payload pre) @ drop (length (payload pre)) bytes, w')
             \<and> incoming w' = Eof # rest))
       \<and> (length (payload pre) < unat sz \<and> incoming w = pre @ Err x # rest \<and> x \<noteq> EINTR \<longrightarrow>
            (\<exists>w'. frida_loader_recv_bytes w s bytes sz =
               Some (False, map Some (payload pre) @ drop (length (payload pre)) bytes, w')
             \<and> incoming w' = rest))"
proof (intro conjI impI)
  assume "unat sz \<le> length (payload pre) \<and> incoming w = pre @ rest"
  with assms recv_loop_fills [of pre w rest 0 sz bytes s]
  show "\<exists>w'. frida_loader_recv_bytes w s bytes sz =
      Some (True, map Some (take (unat sz) (payload pre)), w')"
    by (auto simp: frida_loader_recv_bytes_def)
next
  assume "length (payload pre) < unat sz \<and> incoming w = pre @ Eof # rest"
  with assms recv_loop_fails_region [of pre w Eof rest 0 sz bytes s]
  show "\<exists>w'. frida_loader_recv_bytes w s bytes sz =
      Some (False, map Some (payload pre) @ drop (length (payload pre)) bytes, w')
      \<and> incoming w' = Eof # rest"
    by (simp add: frida_loader_recv_bytes_def)
next
  assume "length (payload pre) < unat sz \<and> incoming w = pre @ Err x # rest \<and> x \<noteq> EINTR"
  with assms recv_loop_fails_region [of pre w "Err x" rest 0 sz bytes s]
  show "\<exists>w'. frida_loader_recv_bytes w s bytes sz =
      Some (False, map Some (payload pre) @ drop (length (payload pre)) bytes, w')
      \<and> incoming w' = rest"
    by (simp add: frida_loader_recv_bytes_def)
qed

theorem frida_loader_recv_bytes_exact_witness:
  "(\<exists>w'. frida_loader_recv_bytes
       (idle\<lparr>incoming := [Data [7], Err EINTR, Data [0], Data [9, 5]]\<rparr>) 3 [None, None, None] 3 =
       Some (True, [Some 7, Some 0, Some 9], w'))
   \<and> (\<exists>w'. frida_loader_recv_bytes
       (idle\<lparr>incoming := [Data [7], Err EINTR, Data [0], Eof]\<rparr>) 3 [None, None, None] 3 =
       Some (False, [Some 7, Some 0, None], w') \<and> incoming w' = [Eof])
   \<and> (\<exists>w'. frida_loader_recv_bytes
       (idle\<lparr>incoming := [Data [7], Err EINTR, Data [0], Err 54]\<rparr>) 3 [None, None, None] 3 =
       Some (False, [Some 7, Some 0, None], w') \<and> incoming w' = [])"
  using
    frida_loader_recv_bytes_exact [where pre = "[Data [7], Err EINTR, Data [0], Data [9, 5]]"
      and bytes = "[None, None, None]" and sz = 3 and s = 3 and rest = "[]" and x = 54
      and w = "idle\<lparr>incoming := [Data [7], Err EINTR, Data [0], Data [9, 5]]\<rparr>"]
    frida_loader_recv_bytes_exact [where pre = "[Data [7], Err EINTR, Data [0]]"
      and bytes = "[None, None, None]" and sz = 3 and s = 3 and rest = "[]" and x = 54
      and w = "idle\<lparr>incoming := [Data [7], Err EINTR, Data [0], Eof]\<rparr>"]
    frida_loader_recv_bytes_exact [where pre = "[Data [7], Err EINTR, Data [0]]"
      and bytes = "[None, None, None]" and sz = 3 and s = 3 and rest = "[]" and x = 54
      and w = "idle\<lparr>incoming := [Data [7], Err EINTR, Data [0], Err 54]\<rparr>"]
  by (simp add: EINTR_def)

text \<open>
  C6: when \<^verbatim>\<open>frida_loader_recv_value\<close> fails partway, because the peer closes or a
  receive fails before the length byte has arrived, or before the announced number of
  payload bytes has arrived, it returns \<open>NULL\<close> and the heap is as it was before the
  call: the block it allocated, if any, has been freed.
\<close>

theorem frida_loader_recv_value_failure_frees:
  assumes "benign pre" and "incoming w = pre @ stop # rest"
    and "stop = Eof \<or> (\<exists>x. stop = Err x \<and> x \<noteq> EINTR)"
    and "payload pre = [] \<or> (\<exists>n body. payload pre = n # body \<and> length body < unat n)"
  shows "\<exists>w'. frida_loader_recv_value w s = Some (NULL, w') \<and> heap w' = heap w"
proof -
  from recv_value_fails [OF assms] obtain w' where
    r: "frida_loader_recv_value w s = Some (NULL, w')" ..
  from recv_value_result [OF r] have "heap w' = heap w" by simp
  with r show ?thesis by blast
qed

theorem frida_loader_recv_value_failure_frees_witness:
  "(\<exists>w'. frida_loader_recv_value (idle\<lparr>incoming := [Err EINTR, Eof], heap := [(1, [Some 5])]\<rparr>) 3
       = Some (NULL, w') \<and> heap w' = [(1, [Some 5])])
   \<and> (\<exists>w'. frida_loader_recv_value
         (idle\<lparr>incoming := [Data [3, 65], Data [66], Err 54], heap := [(1, [Some 5])]\<rparr>) 3
       = Some (NULL, w') \<and> heap w' = [(1, [Some 5])])"
  using
    frida_loader_recv_value_failure_frees [where pre = "[Err EINTR]" and stop = Eof
      and rest = "[]" and s = 3
      and w = "idle\<lparr>incoming := [Err EINTR, Eof], heap := [(1, [Some 5])]\<rparr>"]
    frida_loader_recv_value_failure_frees [where pre = "[Data [3, 65], Data [66]]"
      and stop = "Err 54" and rest = "[]" and s = 3
      and w = "idle\<lparr>incoming := [Data [3, 65], Data [66], Err 54], heap := [(1, [Some 5])]\<rparr>"]
  by (simp add: EINTR_def)

text \<open>
  C7: when the module loads and its entry symbol resolves, \<^verbatim>\<open>frida_loader_run\<close> calls
  the entry point once, with the rendezvous address it was handed, a null pointer and
  zero; the buffer is still allocated at that moment. Then it unloads the module, and
  when it returns the rendezvous address has been freed, as has the path it built.
\<close>

theorem frida_loader_run_invokes_agent:
  assumes "dlopen_result e \<noteq> NULL" and "dlsym_result e \<noteq> NULL"
    and "p \<noteq> NULL" and "load w p = Some cells"
  shows "\<exists>w'. frida_loader_run e w p = Returned w'
     \<and> trace w' = trace w @
         [Dlopen (cstring (map Some (frida_data_dir e @ bytes_of ''/frida-agent.dylib'' @ [0])))
            (dlopen_result e),
          Dlsym (dlopen_result e) (bytes_of ''frida_agent_main'') (dlsym_result e),
          AgentMain p NULL 0 (Some cells),
          Dlclose (dlopen_result e)]
     \<and> load w' p = None
     \<and> heap w' = filter (\<lambda>b. fst b \<noteq> p) (heap w)"
  using frida_loader_run_loaded [OF assms]
  by (simp add: load_def map_of_filter_out)

theorem frida_loader_run_invokes_agent_witness:
  "\<exists>w'. frida_loader_run cooperative (idle\<lparr>heap := [(2, [Some 112, Some 58])]\<rparr>) 2 = Returned w'
     \<and> trace w' =
         [Dlopen (bytes_of ''/d/frida-agent.dylib'') 77,
          Dlsym 77 (bytes_of ''frida_agent_main'') 88,
          AgentMain 2 NULL 0 (Some [Some 112, Some 58]),
          Dlclose 77]
     \<and> load w' 2 = None
     \<and> heap w' = []"
  using frida_loader_run_invokes_agent [where e = cooperative and p = 2
      and w = "idle\<lparr>heap := [(2, [Some 112, Some 58])]\<rparr>" and cells = "[Some 112, Some 58]"]
  by (simp add: cooperative_def idle_def NULL_def load_def bytes_of_def)

text \<open>
  C9: a value received with length prefix \<open>n\<close> is returned as a block of exactly \<open>n\<close>
  cells, the payload bytes in order; no terminating zero byte is added. That block, as
  it is, is what the entry point of the agent is later called with.
\<close>

theorem frida_loader_recv_value_exact_buffer:
  assumes "benign pre" and "incoming w = pre @ rest" and "payload pre = n # body @ tail"
    and "length body = unat n"
  shows "\<exists>p w' cells. frida_loader_recv_value w s = Some (p, w') \<and> p \<noteq> NULL
     \<and> load w' p = Some cells \<and> cells = map Some body \<and> length cells = unat n
     \<and> (\<forall>e. dlopen_result e \<noteq> NULL \<and> dlsym_result e \<noteq> NULL \<longrightarrow>
           (\<exists>v. frida_loader_run e w' p = Returned v
              \<and> AgentMain p NULL 0 (Some cells) \<in> set (trace v)))"
proof -
  from recv_value_receives [OF assms] obtain w' where
    r: "frida_loader_recv_value w s = Some (fresh (heap w), w')"
    and h: "heap w' = (fresh (heap w), map Some body) # heap w"
    by blast
  have l: "load w' (fresh (heap w)) = Some (map Some body)"
    using h by (simp add: load_def)
  have "\<exists>v. frida_loader_run e w' (fresh (heap w)) = Returned v
      \<and> AgentMain (fresh (heap w)) NULL 0 (Some (map Some body)) \<in> set (trace v)"
    if "dlopen_result e \<noteq> NULL" "dlsym_result e \<noteq> NULL" for e
    using frida_loader_run_loaded [OF that fresh_not_NULL l] by simp
  with r l assms(4) show ?thesis
    by (simp add: fresh_not_NULL)
qed

theorem frida_loader_recv_value_exact_buffer_witness:
  "\<exists>p w' cells. frida_loader_recv_value (idle\<lparr>incoming := [Data [3, 65], Err EINTR, Data [0, 66, 9]]\<rparr>) 3
       = Some (p, w') \<and> p \<noteq> NULL
     \<and> load w' p = Some cells \<and> cells = [Some 65, Some 0, Some 66] \<and> length cells = 3
     \<and> (\<exists>v. frida_loader_run cooperative w' p = Returned v
              \<and> AgentMain p NULL 0 (Some cells) \<in> set (trace v))"
proof -
  have "dlopen_result cooperative \<noteq> NULL \<and> dlsym_result cooperative \<noteq> NULL"
    by (simp add: cooperative_def NULL_def)
  with frida_loader_recv_value_exact_buffer [where pre = "[Data [3, 65], Err EINTR, Data [0, 66, 9]]"
      and w = "idle\<lparr>incoming := [Data [3, 65], Err EINTR, Data [0, 66, 9]]\<rparr>"
      and rest = "[]" and n = 3 and body = "[65, 0, 66]" and tail = "[9]" and s = 3]
  show ?thesis
    by (simp add: EINTR_def) blast
qed


text \<open>
  C4: for every string \<open>str\<close> of at most 255 bytes (a C string: no zero byte before its
  terminator), \<^verbatim>\<open>frida_loader_send_value\<close> puts one length byte and then the bytes of
  \<open>str\<close> on the wire, and \<^verbatim>\<open>frida_loader_recv_value\<close>, reading that byte stream in any
  fragmentation, returns a block that holds exactly \<open>str\<close>.
\<close>

theorem value_codec_roundtrip:
  assumes "0 \<notin> set str" and "length str \<le> 255"
    and "no_fatal (send_plan wa)"
    and "benign es" and "incoming wb = es @ rest"
    and "outgoing (snd (frida_loader_send_value wa sa (str @ 0 # junk))) =
           outgoing wa @ payload es"
  shows "fst (frida_loader_send_value wa sa (str @ 0 # junk))
     \<and> payload es = word_of_nat (length str) # str
     \<and> (\<exists>p wb'. frida_loader_recv_value wb sb = Some (p, wb') \<and> p \<noteq> NULL
           \<and> load wb' p = Some (map Some str))"
proof -
  have "takeWhile (\<lambda>b. b \<noteq> 0) str = str"
    using assms(1) by (rule takeWhile_string)
  with codec_transfer [of str wa es wb rest sa junk sb] assms show ?thesis
    by simp
qed

theorem value_codec_roundtrip_witness:
  "fst (frida_loader_send_value (idle\<lparr>send_plan := [Accept 0, SendErr EINTR, Accept 1]\<rparr>) 3
          ([112, 105] @ 0 # [7]))
   \<and> payload [Data [2], Err EINTR, Data [112], Data [105]] = [2, 112, 105]
   \<and> (\<exists>p wb'. frida_loader_recv_value
         (idle\<lparr>incoming := [Data [2], Err EINTR, Data [112], Data [105]]\<rparr>) 4 = Some (p, wb')
         \<and> p \<noteq> NULL \<and> load wb' p = Some [Some 112, Some 105])"
proof -
  have "outgoing (snd (frida_loader_send_value
          (idle\<lparr>send_plan := [Accept 0, SendErr EINTR, Accept 1]\<rparr>) 3 ([112, 105] @ 0 # [7]))) =
        outgoing (idle\<lparr>send_plan := [Accept 0, SendErr EINTR, Accept 1]\<rparr>) @
        payload [Data [2], Err EINTR, Data [112], Data [105]]"
    by code_simp
  with value_codec_roundtrip [where str = "[112, 105]" and junk = "[7]" and sa = 3 and sb = 4
      and wa = "idle\<lparr>send_plan := [Accept 0, SendErr EINTR, Accept 1]\<rparr>"
      and es = "[Data [2], Err EINTR, Data [112], Data [105]]" and rest = "[]"
      and wb = "idle\<lparr>incoming := [Data [2], Err EINTR, Data [112], Data [105]]\<rparr>"]
  show ?thesis
    by (simp add: EINTR_def)
qed

text \<open>
  C10: for a string longer than 255 bytes \<^verbatim>\<open>frida_loader_send_value\<close> reports no error:
  when no \<^verbatim>\<open>send\<close> fails, it returns true, having sent the length modulo 256 as the
  prefix and only that many leading bytes of the string.
\<close>

theorem frida_loader_send_value_truncates:
  assumes "0 \<notin> set str" and "255 < length str" and "no_fatal (send_plan w)"
  shows "\<exists>w'. frida_loader_send_value w s (str @ 0 # junk) = (True, w')
     \<and> outgoing w' = outgoing w @
          word_of_nat (length str mod 256) # take (length str mod 256) str"
proof -
  have "(word_of_nat (length str) :: byte) = word_of_nat (length str mod 256)"
    by (simp add: word_unat_eq_iff unat_byte_of_nat)
  moreover have "length str mod 256 \<le> length str"
    by simp
  ultimately show ?thesis
    using send_value_sends [OF assms(3), of s "str @ 0 # junk"] assms(1)
    by (auto simp: strlen_string)
qed

theorem frida_loader_send_value_truncates_witness:
  "\<exists>w'. frida_loader_send_value (idle\<lparr>send_plan := [Accept 1, SendErr EINTR]\<rparr>) 3
            (replicate 258 65 @ 0 # []) = (True, w')
     \<and> outgoing w' = 2 # replicate 2 65"
  using frida_loader_send_value_truncates [where str = "replicate 258 65" and junk = "[]"
      and s = 3 and w = "idle\<lparr>send_plan := [Accept 1, SendErr EINTR]\<rparr>"]
  by (simp add: EINTR_def idle_def)


text \<open>
  C3, as stated, fails for a value with an embedded zero byte: of the 127-byte value made
  of 63 bytes \<open>65\<close>, a zero byte and 63 bytes \<open>66\<close>, \<^verbatim>\<open>frida_loader_send_value\<close> sends the
  length 63 and the first 63 bytes, and that is all \<^verbatim>\<open>frida_loader_recv_value\<close> returns.
\<close>

theorem embedded_zero_byte_counterexample:
  "length (replicate 63 65 @ 0 # replicate 63 (66 :: byte)) = 127
   \<and> fst (frida_loader_send_value idle 3 ((replicate 63 65 @ 0 # replicate 63 66) @ [0]))
   \<and> outgoing (snd (frida_loader_send_value idle 3 ((replicate 63 65 @ 0 # replicate 63 66) @ [0])))
       = 63 # replicate 63 65
   \<and> received_value (idle\<lparr>incoming := [Data (63 # replicate 63 65)]\<rparr>) 3
       = Some (map Some (replicate 63 65))
   \<and> map Some (replicate 63 65) \<noteq> map Some (replicate 63 65 @ 0 # replicate 63 (66 :: byte))"
  by code_simp


text \<open>
  C3, amended: a value of 0, 1, 127 or 255 bytes is cut at its first zero byte by
  \<^verbatim>\<open>frida_loader_send_value\<close>, which takes its length from \<^verbatim>\<open>strlen\<close>; what
  \<^verbatim>\<open>frida_loader_recv_value\<close> returns is the part before that zero byte. A value
  without a zero byte is therefore transferred whole.
\<close>

theorem boundary_length_values_transfer:
  assumes "length val \<in> {0, 1, 127, 255}"
    and "no_fatal (send_plan wa)"
    and "benign es" and "incoming wb = es @ rest"
    and "outgoing (snd (frida_loader_send_value wa sa (val @ [0]))) = outgoing wa @ payload es"
  shows "fst (frida_loader_send_value wa sa (val @ [0]))
     \<and> (\<exists>p wb'. frida_loader_recv_value wb sb = Some (p, wb') \<and> p \<noteq> NULL
           \<and> load wb' p = Some (map Some (takeWhile (\<lambda>b. b \<noteq> 0) val))
           \<and> (0 \<notin> set val \<longrightarrow> load wb' p = Some (map Some val)))"
proof -
  have "length (takeWhile (\<lambda>b. b \<noteq> 0) val) \<le> length val"
    by (rule length_takeWhile_le)
  also have "\<dots> \<le> 255"
    using assms(1) by auto
  finally have "length (takeWhile (\<lambda>b. b \<noteq> 0) val) \<le> 255" .
  from codec_transfer [OF this assms(2-5), of sb] show ?thesis
    by (auto simp: takeWhile_string)
qed

theorem boundary_length_values_transfer_witness:
  "fst (frida_loader_send_value idle 3 (replicate 127 65 @ [0]))
     \<and> (\<exists>p wb'. frida_loader_recv_value (idle\<lparr>incoming := [Data (127 # replicate 127 65)]\<rparr>) 4
             = Some (p, wb') \<and> p \<noteq> NULL
           \<and> load wb' p = Some (map Some (replicate 127 65)))"
proof -
  have "outgoing (snd (frida_loader_send_value idle 3 (replicate 127 65 @ [0]))) =
        outgoing idle @ payload [Data (127 # replicate 127 65)]"
    by code_simp
  with boundary_length_values_transfer [where val = "replicate 127 65" and sa = 3 and sb = 4
      and wa = idle and es = "[Data (127 # replicate 127 65)]" and rest = "[]"
      and wb = "idle\<lparr>incoming := [Data (127 # replicate 127 65)]\<rparr>"]
  show ?thesis
    by (simp add: idle_def)
qed


text \<open>
  C2, as stated, fails for a zero-length value: a length byte 0 is a value like any other.
  \<^verbatim>\<open>frida_loader_recv_value\<close> returns an empty block for it, not \<open>NULL\<close>, and the
  constructor creates the thread with that block.
\<close>

theorem zero_length_address_counterexample:
  "map_outcome trace (frida_loader_on_load cooperative (idle\<lparr>incoming := [Data [0], Eof]\<rparr>))
     = Returns [ThreadCreate 2, ThreadDetach 0, Close 3]
   \<and> map_outcome heap (frida_loader_on_load cooperative (idle\<lparr>incoming := [Data [0], Eof]\<rparr>))
     = Returns [(2, [])]"
  by code_simp

text \<open>
  C2, amended: if receiving the rendezvous address fails, because the peer closes or a
  receive fails before the length byte and the announced payload have arrived, the
  constructor returns with the socket closed, no thread created and the heap as it found
  it. A value of length zero is not such a failure: it is received as an empty block.
  The receive is reached when the socket is created, the path of the control socket fits
  the 104 bytes of \<^verbatim>\<open>sun_path\<close>, and connecting and announcing succeed.
\<close>

theorem on_load_aborts_without_address:
  assumes "socket_result e \<noteq> - 1" and "connect_result e \<noteq> - 1" and "no_fatal (send_plan w)"
    and "strlen (frida_data_dir e @ bytes_of ''/callback'' @ [0]) < 104"
    and "benign pre" and "incoming w = pre @ stop # rest"
    and "stop = Eof \<or> (\<exists>x. stop = Err x \<and> x \<noteq> EINTR)"
    and "payload pre = [] \<or> (\<exists>n body. payload pre = n # body \<and> length body < unat n)"
  shows "(\<exists>w'. frida_loader_on_load e w = Returns w'
       \<and> trace w' = trace w @ [Close (socket_result e)]
       \<and> socket_result e \<notin> fds w' \<and> heap w' = heap w)
     \<and> (benign pre_b \<and> incoming w_b = pre_b @ rest_b \<and> payload pre_b = 0 # tail_b \<longrightarrow>
          (\<exists>p w'. frida_loader_recv_value w_b (socket_result e) = Some (p, w') \<and> p \<noteq> NULL
             \<and> load w' p = Some []))"
proof (intro conjI impI)
  from on_load_first_receive_fails [OF assms]
  show "\<exists>w'. frida_loader_on_load e w = Returns w'
       \<and> trace w' = trace w @ [Close (socket_result e)]
       \<and> socket_result e \<notin> fds w' \<and> heap w' = heap w"
    by auto
next
  assume a: "benign pre_b \<and> incoming w_b = pre_b @ rest_b \<and> payload pre_b = 0 # tail_b"
  then have "payload pre_b = 0 # [] @ tail_b" "length ([] :: byte list) = unat (0 :: byte)"
    by simp_all
  from recv_value_receives [OF _ _ this, of w_b rest_b "socket_result e"] a
  obtain w' where "frida_loader_recv_value w_b (socket_result e) = Some (fresh (heap w_b), w')"
    and "heap w' = (fresh (heap w_b), map Some []) # heap w_b"
    by blast
  then show "\<exists>p w'. frida_loader_recv_value w_b (socket_result e) = Some (p, w') \<and> p \<noteq> NULL
           \<and> load w' p = Some []"
    by (simp add: load_def fresh_not_NULL)
qed

theorem on_load_aborts_without_address_witness:
  "(\<exists>w'. frida_loader_on_load cooperative
            (idle\<lparr>incoming := [Data [4, 112], Err EINTR, Data [105], Eof], fds := {0, 1, 2}\<rparr>) = Returns w'
       \<and> trace w' = [Close 3] \<and> 3 \<notin> fds w' \<and> heap w' = [])
   \<and> (\<exists>p w'. frida_loader_recv_value (idle\<lparr>incoming := [Data [0]]\<rparr>) 3 = Some (p, w') \<and> p \<noteq> NULL
         \<and> load w' p = Some [])"
  using on_load_aborts_without_address [where e = cooperative and stop = Eof and rest = "[]"
      and pre = "[Data [4, 112], Err EINTR, Data [105]]"
      and w = "idle\<lparr>incoming := [Data [4, 112], Err EINTR, Data [105], Eof], fds := {0, 1, 2}\<rparr>"
      and pre_b = "[Data [0]]" and rest_b = "[]" and tail_b = "[]"
      and w_b = "idle\<lparr>incoming := [Data [0]]\<rparr>"]
  by (simp add: cooperative_def idle_def EINTR_def strlen_def bytes_of_def)

text \<open>
  C8: once the rendezvous address has been received and the thread created, a failure to
  receive the resume token does not keep the constructor from returning: the socket is
  closed and nothing stays allocated but the rendezvous address, which the thread owns.
  A failure to receive the rendezvous address, in contrast, ends the constructor with no
  thread created. The receives are reached when the socket is created, the path of the
  control socket fits the 104 bytes of \<^verbatim>\<open>sun_path\<close>, and connecting and announcing
  succeed.
\<close>

theorem on_load_tolerates_missing_resume_token:
  assumes "socket_result e \<noteq> - 1" and "connect_result e \<noteq> - 1" and "pthread_create_result e = 0"
    and "no_fatal (send_plan w)"
    and "strlen (frida_data_dir e @ bytes_of ''/callback'' @ [0]) < 104"
    and "benign pre" and "incoming w = pre @ stop # rest"
    and "stop = Eof \<or> (\<exists>x. stop = Err x \<and> x \<noteq> EINTR)"
    and "payload pre = n # body @ tail" and "length body = unat n"
    and "tail = [] \<or> (\<exists>m body2. tail = m # body2 \<and> length body2 < unat m)"
  shows "(\<exists>w' p. frida_loader_on_load e w = Returns w' \<and> p \<noteq> NULL
       \<and> trace w' = trace w @
            [ThreadCreate p, ThreadDetach (length (trace w)), Close (socket_result e)]
       \<and> socket_result e \<notin> fds w'
       \<and> heap w' = (p, map Some body) # heap w)
     \<and> (no_fatal (send_plan w_b) \<and> benign pre_b \<and> incoming w_b = pre_b @ stop # rest
           \<and> (payload pre_b = [] \<or> (\<exists>n_b body_b. payload pre_b = n_b # body_b \<and> length body_b < unat n_b)) \<longrightarrow>
          (\<exists>w'. frida_loader_on_load e w_b = Returns w'
             \<and> trace w' = trace w_b @ [Close (socket_result e)]))"
proof (intro conjI impI)
  from on_load_second_receive_fails [OF assms(1,2,4-11)] assms(3)
  show "\<exists>w' p. frida_loader_on_load e w = Returns w' \<and> p \<noteq> NULL
       \<and> trace w' = trace w @
            [ThreadCreate p, ThreadDetach (length (trace w)), Close (socket_result e)]
       \<and> socket_result e \<notin> fds w'
       \<and> heap w' = (p, map Some body) # heap w"
    by auto
next
  assume a: "no_fatal (send_plan w_b) \<and> benign pre_b \<and> incoming w_b = pre_b @ stop # rest
         \<and> (payload pre_b = [] \<or> (\<exists>n_b body_b. payload pre_b = n_b # body_b \<and> length body_b < unat n_b))"
  from on_load_first_receive_fails [OF assms(1,2) _ assms(5), of w_b pre_b stop rest] a assms(8)
  show "\<exists>w'. frida_loader_on_load e w_b = Returns w'
           \<and> trace w' = trace w_b @ [Close (socket_result e)]"
    by blast
qed

theorem on_load_tolerates_missing_resume_token_witness:
  "(\<exists>w' p. frida_loader_on_load cooperative
       (idle\<lparr>incoming := [Data [2, 112, 58], Data [2, 103], Err 54]\<rparr>) = Returns w' \<and> p \<noteq> NULL
       \<and> trace w' = [ThreadCreate p, ThreadDetach 0, Close 3]
       \<and> 3 \<notin> fds w'
       \<and> heap w' = [(p, [Some 112, Some 58])])
   \<and> (\<exists>w'. frida_loader_on_load cooperative (idle\<lparr>incoming := [Data [2, 112], Err 54]\<rparr>) = Returns w'
         \<and> trace w' = [Close 3])"
  using on_load_tolerates_missing_resume_token [where e = cooperative and stop = "Err 54"
      and rest = "[]" and pre = "[Data [2, 112, 58], Data [2, 103]]" and n = 2
      and body = "[112, 58]" and tail = "[2, 103]"
      and w = "idle\<lparr>incoming := [Data [2, 112, 58], Data [2, 103], Err 54]\<rparr>"
      and pre_b = "[Data [2, 112]]" and w_b = "idle\<lparr>incoming := [Data [2, 112], Err 54]\<rparr>"]
  by (simp add: cooperative_def idle_def EINTR_def strlen_def bytes_of_def)

text \<open>
  C1 fails on the code. The result of \<^verbatim>\<open>pthread_create\<close> is not looked at: when it
  fails with \<^verbatim>\<open>EAGAIN\<close> (35) after the address \<open>[112, 58]\<close> has been received, the
  constructor still waits for the resume token, and when it returns the block of the
  rendezvous address is still allocated although no thread exists to free it. If the
  controller sends no resume token and keeps the connection open, it does not return.
\<close>

theorem thread_creation_failure_leaks_address:
  "map_outcome heap (frida_loader_on_load (cooperative\<lparr>pthread_create_result := 35\<rparr>)
       (idle\<lparr>incoming := [Data [2, 112, 58], Data [2, 103, 111]]\<rparr>))
     = Returns [(2, [Some 112, Some 58])]
   \<and> map_outcome trace (frida_loader_on_load (cooperative\<lparr>pthread_create_result := 35\<rparr>)
       (idle\<lparr>incoming := [Data [2, 112, 58], Data [2, 103, 111]]\<rparr>))
     = Returns [Close 3]
   \<and> frida_loader_on_load (cooperative\<lparr>pthread_create_result := 35\<rparr>)
       (idle\<lparr>incoming := [Data [2, 112, 58]]\<rparr>) = Blocks"
  by code_simp


end
